theory Spec2Isabelle
  imports Complex_Main "HOL-Library.Sublist"
begin

section \<open>The avatar stream feed of \<open>app.js\<close> (class \<open>LumiEnhancedApp\<close>)\<close>

text \<open>
  The model covers the stream part of \<open>src/web/static/js/app.js\<close>: the mode toggle
  (\<open>toggleStreamMethod\<close>, \<open>cleanupStream\<close>), the start of a feed
  (\<open>initializeLive2DStream\<close>, \<open>setupCanvas\<close>), the renderer (\<open>drawToCanvas\<close>),
  the polling feed (\<open>initializeMjpgStream\<close> with its closures \<open>loadNextFrame\<close>,
  \<open>loaderImg.onload\<close>, \<open>loaderImg.onerror\<close>) and the socket feed
  (\<open>initializeWebSocketStream\<close> with its \<open>live2d_frame\<close> handler, and
  \<open>processWebSocketFrame\<close>).

  JavaScript runs these handlers one at a time on one thread. Each handler is a function
  from the state before it to the state after it. The state holds the fields of
  \<open>this\<close> that the stream code reads or writes, the variables captured by the closures
  of each feed, and what the browser keeps for the page: the clock (\<open>Date.now()\<close>), the
  pending timers of \<open>setTimeout\<close>, the image loads in flight, and logs of what was drawn,
  requested, emitted and notified. \<open>console.log\<close> and \<open>console.error\<close> are left out.
\<close>

subsection \<open>Data\<close>

text \<open>Anything with a \<open>width\<close> and a \<open>height\<close>: the canvas, and the box of the
  \<open>.live2d-display\<close> element. An image extends it with the address it was loaded from.\<close>

record sized =
  width :: nat
  height :: nat

text \<open>\<open>UrlT u t\<close> stands for the string \<open>u + '?t=' + t\<close> that \<open>loadNextFrame\<close> builds;
  \<open>DataUrl s\<close> is the payload a socket frame carries.\<close>

datatype img_source = UrlT string int | DataUrl string

record image = sized +
  src :: img_source

text \<open>The calls made on the 2-D context, with the numbers passed (see \<open>round64\<close>
  below for how they are computed). \<open>DrawImageNoPaint\<close> is the \<open>drawImage\<close> call when
  the image or the canvas has a zero side: the quotients are then \<open>Infinity\<close>, \<open>NaN\<close>
  or zero, the call does not throw and paints nothing.\<close>

datatype draw_op =
    ClearRect real real real real
  | DrawImage image real real real real
  | DrawImageNoPaint image

datatype js_error = TypeError

datatype status_source = mjpg_stream | virtual_camera | placeholder | error | connecting

datatype sock_state = Connecting | Connected | Closed

datatype callback =
    InitStream
  | LoadNextFrame nat
  | RetryLoad nat
  | FlushPending nat
  | EmitStart
  | EmitStartIfConnected

record timer =
  timer_id :: nat
  due :: int
  callback :: callback

record app =
  \<comment> \<open>fields of \<open>this\<close>\<close>
  useMjpgStream :: bool
  mjpgUrl :: string
  currentStream :: "sized option"
  streamInitialized :: bool
  canvasContext :: bool
  lastFrameTime :: int
  frameInterval :: int
  currentImage :: "image option"
  isLoading :: bool
  mjpgRefreshInterval :: "nat option"
  canvasRenderTimeout :: "nat option"
  live2dSocket :: "nat option"
  \<comment> \<open>variables captured by the closures of one feed, by the feed's number\<close>
  isFirstLoad :: "nat \<Rightarrow> bool"
  loaderSrc :: "nat \<Rightarrow> img_source option"
  frameCount :: "nat \<Rightarrow> nat"
  pendingFrame :: "nat \<Rightarrow> string option"
  nextFeed :: nat
  \<comment> \<open>the browser and the page\<close>
  clock :: int
  timers :: "timer list"
  nextTimer :: nat
  sockets :: "nat \<Rightarrow> sock_state"
  decoding :: "string list"
  display :: "sized option"
  statusElement :: "(status_source \<times> string) option"
  \<comment> \<open>logs\<close>
  drawOps :: "(int \<times> draw_op) list"
  requests :: "(int \<times> img_source) list"
  emitted :: "(nat \<times> string) list"
  notifications :: "(string \<times> string) list"
  uncaught :: "js_error list"

subsection \<open>Browser primitives\<close>

text \<open>\<open>setTimeout(cb, delay)\<close>: a negative delay counts as zero.\<close>

definition setTimeout :: "callback \<Rightarrow> int \<Rightarrow> app \<Rightarrow> app" where
  "setTimeout cb delay w =
     w\<lparr>timers := timers w @
           [\<lparr>timer_id = nextTimer w, due = clock w + max 0 delay, callback = cb\<rparr>],
       nextTimer := Suc (nextTimer w)\<rparr>"

text \<open>\<open>clearTimeout(id)\<close> and \<open>clearInterval(id)\<close> share one table of ids.\<close>

definition clearTimeout :: "nat \<Rightarrow> app \<Rightarrow> app" where
  "clearTimeout i w = w\<lparr>timers := filter (\<lambda>t. timer_id t \<noteq> i) (timers w)\<rparr>"

text \<open>\<open>showNotification(message, type)\<close> appends an element to the page.\<close>

definition showNotification :: "string \<Rightarrow> string \<Rightarrow> app \<Rightarrow> app" where
  "showNotification message type w = w\<lparr>notifications := notifications w @ [(message, type)]\<rparr>"

subsection \<open>\<open>updateLive2DStatus\<close>\<close>

text \<open>The status texts carry pictographs; the element's text is kept as the
  \<open>source\<close> tag that selects it, together with the class string.\<close>

fun statusClass :: "status_source \<Rightarrow> string" where
  "statusClass mjpg_stream = ''status-online''"
| "statusClass virtual_camera = ''status-online''"
| "statusClass placeholder = ''status-offline''"
| "statusClass error = ''status-error''"
| "statusClass connecting = ''status-offline''"

definition updateLive2DStatus :: "status_source \<Rightarrow> app \<Rightarrow> app" where
  "updateLive2DStatus source w =
     (case statusElement w of
        None \<Rightarrow> w
      | Some _ \<Rightarrow> w\<lparr>statusElement := Some (source, statusClass source)\<rparr>)"

subsection \<open>Numbers\<close>

text \<open>A JavaScript number is an IEEE 754 binary64 value, and each of \<open>/\<close>, \<open>*\<close> and
  \<open>-\<close> returns the exact result rounded to the nearest such value, ties to the even
  significand. A finite number is kept here as the real it denotes. \<open>roundEven y\<close> is
  the integer nearest to \<open>y\<close>, the even one of the two at a tie. \<open>ulp64 x\<close> is the
  spacing of the binary64 values around \<open>x\<close>: \<open>2\<close> to the power \<open>e - 52\<close> where
  \<open>2 ^ e \<le> \<bar>x\<bar> < 2 ^ (e + 1)\<close>, and \<open>2\<close> to the power \<open>- 1074\<close> throughout the subnormal
  range. \<open>round64 x\<close> is \<open>x\<close> rounded to a multiple of that spacing. Overflow to
  \<open>Infinity\<close> (from \<open>2 ^ 1024\<close> on) is left out: the sides of an image and of a canvas
  are \<open>unsigned long\<close>, so the numbers \<open>drawToCanvas\<close> computes from sides that are not
  zero stay below \<open>2 ^ 64\<close>; a zero side is treated apart in \<open>drawToCanvas\<close>.\<close>

definition roundEven :: "real \<Rightarrow> int" where
  "roundEven y =
     (let f = \<lfloor>y\<rfloor>; d = y - of_int f
      in if d < 1 / 2 then f
         else if 1 / 2 < d then f + 1
         else if even f then f else f + 1)"

definition ulp64 :: "real \<Rightarrow> real" where
  "ulp64 x = 2 powi (max \<lfloor>log 2 \<bar>x\<bar>\<rfloor> (- 1022) - 52)"

definition round64 :: "real \<Rightarrow> real" where
  "round64 x = (if x = 0 then 0 else of_int (roundEven (x / ulp64 x)) * ulp64 x)"

text \<open>The three operators of lines 411 to 427.\<close>

definition div64 :: "real \<Rightarrow> real \<Rightarrow> real" where
  "div64 a b = round64 (a / b)"

definition mul64 :: "real \<Rightarrow> real \<Rightarrow> real" where
  "mul64 a b = round64 (a * b)"

definition sub64 :: "real \<Rightarrow> real \<Rightarrow> real" where
  "sub64 a b = round64 (a - b)"

subsection \<open>\<open>drawToCanvas\<close>\<close>

text \<open>The rectangle \<open>(offsetX, offsetY, renderWidth, renderHeight)\<close> of lines 411 to 428,
  for an image \<open>iw \<times> ih\<close> on a canvas \<open>cw \<times> ch\<close>, statement by statement. The four
  sides are \<open>unsigned long\<close> values (below \<open>2 ^ 32\<close>), which binary64 holds exactly.\<close>

definition renderRect :: "nat \<Rightarrow> nat \<Rightarrow> nat \<Rightarrow> nat \<Rightarrow> real \<times> real \<times> real \<times> real" where
  "renderRect iw ih cw ch =
     (let imgAspect = div64 (real iw) (real ih);
          canvasAspect = div64 (real cw) (real ch)
      in if imgAspect > canvasAspect
         then (let renderWidth = real cw;
                   renderHeight = div64 (real cw) imgAspect;
                   offsetX = 0;
                   offsetY = div64 (sub64 (real ch) renderHeight) 2
               in (offsetX, offsetY, renderWidth, renderHeight))
         else (let renderHeight = real ch;
                   renderWidth = mul64 (real ch) imgAspect;
                   offsetX = div64 (sub64 (real cw) renderWidth) 2;
                   offsetY = 0
               in (offsetX, offsetY, renderWidth, renderHeight)))"

text \<open>\<open>drawToCanvas(image)\<close>; \<open>None\<close> is a \<open>null\<close> or \<open>undefined\<close> argument. The result
  is the exception thrown, if any, and the state reached: what was done before a throw
  stays done.\<close>

definition drawToCanvas :: "image option \<Rightarrow> app \<Rightarrow> js_error option \<times> app" where
  "drawToCanvas bitmap w =
     (case currentStream w of
        None \<Rightarrow> (None, w)
      | Some canvas \<Rightarrow>
          if \<not> canvasContext w then (None, w)
          else
            let w1 = w\<lparr>drawOps := drawOps w @
                       [(clock w, ClearRect 0 0 (real (width canvas)) (real (height canvas)))]\<rparr>
            in case bitmap of
                 None \<Rightarrow> (Some TypeError, w1)
               | Some img \<Rightarrow>
                   if width img = 0 \<or> height img = 0 \<or> width canvas = 0 \<or> height canvas = 0
                   then (None, w1\<lparr>drawOps := drawOps w1 @ [(clock w, DrawImageNoPaint img)]\<rparr>)
                   else
                     (case renderRect (width img) (height img) (width canvas) (height canvas) of
                        (offsetX, offsetY, renderWidth, renderHeight) \<Rightarrow>
                          (None, w1\<lparr>drawOps := drawOps w1 @
                             [(clock w, DrawImage img offsetX offsetY renderWidth renderHeight)]\<rparr>)))"

subsection \<open>The polling feed: \<open>initializeMjpgStream\<close>\<close>

text \<open>The closure \<open>loadNextFrame\<close> of feed \<open>fid\<close>. Setting \<open>loaderImg.src\<close> starts a
  request; \<open>loaderSrc\<close> remembers the load in flight of that feed's \<open>loaderImg\<close>.\<close>

definition loadNextFrame :: "nat \<Rightarrow> app \<Rightarrow> app" where
  "loadNextFrame fid w =
     (if \<not> useMjpgStream w \<or> isLoading w then w
      else
        let timestamp = clock w;
            url = UrlT (mjpgUrl w) timestamp
        in w\<lparr>isLoading := True,
             loaderSrc := (loaderSrc w)(fid := Some url),
             requests := requests w @ [(clock w, url)]\<rparr>)"

text \<open>\<open>loaderImg.onload\<close> of feed \<open>fid\<close>, lines 451 to 475.\<close>

definition loaderImg_onload :: "nat \<Rightarrow> image \<Rightarrow> app \<Rightarrow> app" where
  "loaderImg_onload fid loaderImg w =
     (let w1 = w\<lparr>isLoading := False\<rparr>;
          now = clock w1
      in if now - lastFrameTime w1 < frameInterval w1
         then setTimeout (LoadNextFrame fid) (frameInterval w1 - (now - lastFrameTime w1)) w1
         else
           let w2 = w1\<lparr>lastFrameTime := now\<rparr>
           in case drawToCanvas (Some loaderImg) w2 of
                (Some e, w3) \<Rightarrow> w3\<lparr>uncaught := uncaught w3 @ [e]\<rparr>
              | (None, w3) \<Rightarrow>
                  let w4 = (if isFirstLoad w3 fid
                            then (updateLive2DStatus mjpg_stream w3)
                                   \<lparr>isFirstLoad := (isFirstLoad w3)(fid := False)\<rparr>
                            else w3)
                  in setTimeout (LoadNextFrame fid) (frameInterval w4) w4)"

text \<open>\<open>loaderImg.onerror\<close> of feed \<open>fid\<close>, lines 477 to 488, and the callback it
  schedules.\<close>

definition loaderImg_onerror :: "nat \<Rightarrow> app \<Rightarrow> app" where
  "loaderImg_onerror fid w =
     setTimeout (RetryLoad fid) 1000 (updateLive2DStatus error (w\<lparr>isLoading := False\<rparr>))"

definition retryLoad :: "nat \<Rightarrow> app \<Rightarrow> app" where
  "retryLoad fid w = (if useMjpgStream w then loadNextFrame fid w else w)"

text \<open>\<open>initializeMjpgStream()\<close>: a new \<open>loaderImg\<close> and a new \<open>isFirstLoad\<close>, numbered
  by \<open>nextFeed\<close>.\<close>

definition initializeMjpgStream :: "app \<Rightarrow> app" where
  "initializeMjpgStream w =
     (let fid = nextFeed w;
          w1 = w\<lparr>nextFeed := Suc fid,
                 isFirstLoad := (isFirstLoad w)(fid := True),
                 loaderSrc := (loaderSrc w)(fid := None)\<rparr>
      in updateLive2DStatus mjpg_stream (loadNextFrame fid w1))"

subsection \<open>The socket feed: \<open>initializeWebSocketStream\<close>\<close>

text \<open>\<open>processWebSocketFrame(frameData)\<close>, lines 613 to 631. A frame's payload is a
  string or absent (\<open>None\<close>). Setting \<open>img.src\<close> starts the decoding of the payload; its
  end is \<open>img_onload\<close> or \<open>img_onerror\<close> below.\<close>

definition processWebSocketFrame :: "string option \<Rightarrow> app \<Rightarrow> app" where
  "processWebSocketFrame frameData w =
     (case frameData of
        None \<Rightarrow> w
      | Some s \<Rightarrow>
          if s = [] \<or> \<not> prefix ''data:image/'' s then w
          else w\<lparr>decoding := decoding w @ [s]\<rparr>)"

definition img_onload :: "image \<Rightarrow> app \<Rightarrow> app" where
  "img_onload img w =
     (case drawToCanvas (Some img) w of
        (Some e, w1) \<Rightarrow> w1\<lparr>uncaught := uncaught w1 @ [e]\<rparr>
      | (None, w1) \<Rightarrow> updateLive2DStatus virtual_camera w1)"

definition img_onerror :: "app \<Rightarrow> app" where
  "img_onerror w = updateLive2DStatus error w"

text \<open>A value is truthy in \<open>if (pendingFrame)\<close> when it is a non-empty string.\<close>

definition truthy :: "string option \<Rightarrow> bool" where
  "truthy v = (case v of None \<Rightarrow> False | Some s \<Rightarrow> s \<noteq> [])"

text \<open>The \<open>live2d_frame\<close> handler of the feed on socket \<open>sid\<close>, lines 536 to 556, with
  \<open>frame\<close> the field \<open>data.frame\<close>, and the callback it schedules.\<close>

definition live2d_frame :: "nat \<Rightarrow> string option \<Rightarrow> app \<Rightarrow> app" where
  "live2d_frame sid frame w =
     (let w0 = w\<lparr>frameCount := (frameCount w)(sid := Suc (frameCount w sid))\<rparr>;
          now = clock w0
      in if now - lastFrameTime w0 < frameInterval w0
         then w0\<lparr>pendingFrame := (pendingFrame w0)(sid := frame)\<rparr>
         else
           let w1 = w0\<lparr>lastFrameTime := now\<rparr>;
               w2 = processWebSocketFrame frame w1
           in if truthy (pendingFrame w2 sid)
              then setTimeout (FlushPending sid) (frameInterval w2) w2
              else w2)"

definition flushPending :: "nat \<Rightarrow> app \<Rightarrow> app" where
  "flushPending sid w =
     (let w1 = processWebSocketFrame (pendingFrame w sid) w
      in w1\<lparr>pendingFrame := (pendingFrame w1)(sid := None)\<rparr>)"

text \<open>\<open>this.live2dSocket.emit(name)\<close>: a \<open>TypeError\<close> when the field is \<open>null\<close>.\<close>

definition emit :: "string \<Rightarrow> app \<Rightarrow> app" where
  "emit name w =
     (case live2dSocket w of
        None \<Rightarrow> w\<lparr>uncaught := uncaught w @ [TypeError]\<rparr>
      | Some sid \<Rightarrow> w\<lparr>emitted := emitted w @ [(sid, name)]\<rparr>)"

text \<open>The \<open>connect\<close> handler, lines 510 to 518; the second statement is not reached
  when the first throws.\<close>

definition socket_connect :: "app \<Rightarrow> app" where
  "socket_connect w =
     (case live2dSocket w of
        None \<Rightarrow> emit ''get_camera_status'' w
      | Some _ \<Rightarrow> setTimeout EmitStart 500 (emit ''get_camera_status'' w))"

definition emitStartIfConnected :: "app \<Rightarrow> app" where
  "emitStartIfConnected w =
     (case live2dSocket w of
        None \<Rightarrow> w
      | Some sid \<Rightarrow>
          if sockets w sid = Connected then emit ''start_background_stream'' w else w)"

text \<open>\<open>initializeWebSocketStream()\<close>: \<open>io('/live2d')\<close> is a new socket, numbered by
  \<open>nextFeed\<close>, with a new \<open>frameCount\<close> and \<open>pendingFrame\<close>. An id is truthy when it is
  not zero. The handlers of the status events (\<open>connected\<close>, \<open>camera_status\<close>, ...) do
  not touch the frames and are left out.\<close>

definition initializeWebSocketStream :: "app \<Rightarrow> app" where
  "initializeWebSocketStream w =
     (let w1 = (case mjpgRefreshInterval w of
                  None \<Rightarrow> w
                | Some i \<Rightarrow> if i = 0 then w
                            else (clearTimeout i w)\<lparr>mjpgRefreshInterval := None\<rparr>);
          sid = nextFeed w1;
          w2 = w1\<lparr>nextFeed := Suc sid,
                  live2dSocket := Some sid,
                  sockets := (sockets w1)(sid := Connecting),
                  frameCount := (frameCount w1)(sid := 0),
                  pendingFrame := (pendingFrame w1)(sid := None)\<rparr>
      in updateLive2DStatus virtual_camera (setTimeout EmitStartIfConnected 1000 w2))"

subsection \<open>The controller\<close>

text \<open>\<open>cleanupStream()\<close>, lines 179 to 203.\<close>

definition cleanupStream :: "app \<Rightarrow> app" where
  "cleanupStream w =
     (let w1 = (case mjpgRefreshInterval w of
                  None \<Rightarrow> w
                | Some i \<Rightarrow> if i = 0 then w
                            else (clearTimeout i w)\<lparr>mjpgRefreshInterval := None\<rparr>);
          w2 = (case canvasRenderTimeout w1 of
                  None \<Rightarrow> w1
                | Some i \<Rightarrow> if i = 0 then w1
                            else (clearTimeout i w1)\<lparr>canvasRenderTimeout := None\<rparr>);
          w3 = (case live2dSocket w2 of
                  None \<Rightarrow> w2
                | Some sid \<Rightarrow>
                    if sockets w2 sid = Connected
                    then w2\<lparr>sockets := (sockets w2)(sid := Closed), live2dSocket := None\<rparr>
                    else w2)
      in w3\<lparr>currentStream := None,
            streamInitialized := False,
            currentImage := None,
            isLoading := False\<rparr>)"

text \<open>\<open>setupCanvas()\<close>: a new canvas of the size of the display's box, and its 2-D
  context. The \<open>resize\<close> listener is left out: no resize happens in the model.\<close>

definition setupCanvas :: "sized \<Rightarrow> app \<Rightarrow> app" where
  "setupCanvas rect w =
     w\<lparr>canvasContext := True,
       currentStream := Some \<lparr>width = width rect, height = height rect\<rparr>\<rparr>"

text \<open>\<open>initializeLive2DStream()\<close>, lines 338 to 361.\<close>

definition initializeLive2DStream :: "app \<Rightarrow> app" where
  "initializeLive2DStream w =
     (case display w of
        None \<Rightarrow> w
      | Some rect \<Rightarrow>
          if streamInitialized w then w
          else
            let w1 = setupCanvas rect (w\<lparr>streamInitialized := True\<rparr>)
            in if useMjpgStream w1 then initializeMjpgStream w1
               else initializeWebSocketStream w1)"

text \<open>\<open>toggleStreamMethod()\<close>, lines 160 to 177.\<close>

definition toggleStreamMethod :: "app \<Rightarrow> app" where
  "toggleStreamMethod w =
     (let w1 = w\<lparr>useMjpgStream := \<not> useMjpgStream w\<rparr>;
          w2 = (if useMjpgStream w1
                then showNotification ''Switched to MJPG Stream (Raw BGR)'' ''info''
                       (w1\<lparr>mjpgUrl := ''/video_feed''\<rparr>)
                else showNotification ''Switched to WebSocket Stream'' ''info'' w1);
          w3 = cleanupStream w2
      in setTimeout InitStream 100 w3)"

text \<open>The constructor, lines 3 to 38, as far as the stream goes: the fields, then
  \<open>initializeApp\<close> reaches \<open>initializeLive2DStream\<close> through \<open>setupImmersiveLayout\<close>
  and \<open>initializeLive2DBackground\<close>. The page gives the time \<open>t0\<close>, the box of the
  display element and the status element, if they exist.\<close>

definition constructor_fields :: "int \<Rightarrow> sized option \<Rightarrow> (status_source \<times> string) option \<Rightarrow> app" where
  "constructor_fields t0 box st =
     \<lparr>useMjpgStream = True,
      mjpgUrl = ''/video_feed'',
      currentStream = None,
      streamInitialized = False,
      canvasContext = False,
      lastFrameTime = 0,
      frameInterval = 100,
      currentImage = None,
      isLoading = False,
      mjpgRefreshInterval = None,
      canvasRenderTimeout = None,
      live2dSocket = None,
      isFirstLoad = (\<lambda>_. False),
      loaderSrc = (\<lambda>_. None),
      frameCount = (\<lambda>_. 0),
      pendingFrame = (\<lambda>_. None),
      nextFeed = 0,
      clock = t0,
      timers = [],
      nextTimer = 1,
      sockets = (\<lambda>_. Closed),
      decoding = [],
      display = box,
      statusElement = st,
      drawOps = [],
      requests = [],
      emitted = [],
      notifications = [],
      uncaught = []\<rparr>"

definition LumiEnhancedApp :: "int \<Rightarrow> sized option \<Rightarrow> (status_source \<times> string) option \<Rightarrow> app" where
  "LumiEnhancedApp t0 box st = initializeLive2DStream (constructor_fields t0 box st)"

subsection \<open>Events\<close>

text \<open>What the browser delivers to the page, one handler at a time: a click on the
  toggle button, a timer that is due, the end of a load of a feed's \<open>loaderImg\<close>, the
  events of a socket, and the end of the decoding of a socket frame. An event that the
  browser cannot deliver (a timer that is not pending or not yet due, a load that was
  never started, a frame on a socket that is not connected) changes nothing.\<close>

datatype event =
    ClickToggle
  | Fire nat
  | LoaderLoad nat nat nat
  | LoaderError nat
  | SocketConnect nat
  | Live2dFrame nat "string option"
  | ImgLoad string nat nat
  | ImgError string

fun dispatch :: "callback \<Rightarrow> app \<Rightarrow> app" where
  "dispatch InitStream w = initializeLive2DStream w"
| "dispatch (LoadNextFrame fid) w = loadNextFrame fid w"
| "dispatch (RetryLoad fid) w = retryLoad fid w"
| "dispatch (FlushPending sid) w = flushPending sid w"
| "dispatch EmitStart w = emit ''start_background_stream'' w"
| "dispatch EmitStartIfConnected w = emitStartIfConnected w"

definition fire :: "nat \<Rightarrow> app \<Rightarrow> app" where
  "fire i w =
     (case find (\<lambda>t. timer_id t = i) (timers w) of
        None \<Rightarrow> w
      | Some t \<Rightarrow>
          if clock w < due t then w
          else dispatch (callback t) (clearTimeout i w))"

fun handle :: "event \<Rightarrow> app \<Rightarrow> app" where
  "handle ClickToggle w = toggleStreamMethod w"
| "handle (Fire i) w = fire i w"
| "handle (LoaderLoad fid iw ih) w =
     (case loaderSrc w fid of
        None \<Rightarrow> w
      | Some u \<Rightarrow>
          loaderImg_onload fid \<lparr>width = iw, height = ih, src = u\<rparr>
            (w\<lparr>loaderSrc := (loaderSrc w)(fid := None)\<rparr>))"
| "handle (LoaderError fid) w =
     (case loaderSrc w fid of
        None \<Rightarrow> w
      | Some u \<Rightarrow> loaderImg_onerror fid (w\<lparr>loaderSrc := (loaderSrc w)(fid := None)\<rparr>))"
| "handle (SocketConnect sid) w =
     (if sockets w sid = Connecting
      then socket_connect (w\<lparr>sockets := (sockets w)(sid := Connected)\<rparr>)
      else w)"
| "handle (Live2dFrame sid frame) w =
     (if sockets w sid = Connected then live2d_frame sid frame w else w)"
| "handle (ImgLoad s iw ih) w =
     (if s \<in> set (decoding w)
      then img_onload \<lparr>width = iw, height = ih, src = DataUrl s\<rparr>
             (w\<lparr>decoding := remove1 s (decoding w)\<rparr>)
      else w)"
| "handle (ImgError s) w =
     (if s \<in> set (decoding w)
      then img_onerror (w\<lparr>decoding := remove1 s (decoding w)\<rparr>)
      else w)"

text \<open>A run: each event with the time at which its handler starts. The clock never
  goes back.\<close>

fun run :: "(int \<times> event) list \<Rightarrow> app \<Rightarrow> app" where
  "run [] w = w"
| "run ((t, e) # es) w = run es (handle e (w\<lparr>clock := max (clock w) t\<rparr>))"

text \<open>The times at which an image was painted, and the images.\<close>

fun painted :: "(int \<times> draw_op) list \<Rightarrow> (int \<times> image) list" where
  "painted [] = []"
| "painted ((t, DrawImage img _ _ _ _) # ops) = (t, img) # painted ops"
| "painted (_ # ops) = painted ops"

subsection \<open>A page to run on\<close>

text \<open>The application as constructed at time 1000 on a page whose display box is
  800 by 600 and whose status element exists.\<close>

definition app0 :: app where
  "app0 = LumiEnhancedApp 1000 (Some \<lparr>width = 800, height = 600\<rparr>)
            (Some (connecting, ''status-offline''))"

text \<open>The page after the mode was switched away and back, so that two polling feeds
  have a request in flight, and after the older response was accepted at 1230; the clock
  stands at 1250.\<close>

definition throttled0 :: app where
  "throttled0 = (run [(1010, ClickToggle), (1110, Fire 1), (1120, ClickToggle), (1220, Fire 3),
                      (1230, LoaderLoad 0 640 480)] app0)\<lparr>clock := 1250\<rparr>"


section \<open>Properties\<close>

subsection \<open>What a handler leaves alone\<close>

lemma url_prims:
  "mjpgUrl (setTimeout cb d w) = mjpgUrl w"
  "mjpgUrl (clearTimeout i w) = mjpgUrl w"
  "mjpgUrl (showNotification m ty w) = mjpgUrl w"
  "mjpgUrl (updateLive2DStatus s w) = mjpgUrl w"
  "mjpgUrl (emit n w) = mjpgUrl w"
  "mjpgUrl (setupCanvas r w) = mjpgUrl w"
  "mjpgUrl (processWebSocketFrame f w) = mjpgUrl w"
  "mjpgUrl (loadNextFrame fid w) = mjpgUrl w"
  by (simp_all add: setTimeout_def clearTimeout_def showNotification_def updateLive2DStatus_def
      emit_def setupCanvas_def processWebSocketFrame_def loadNextFrame_def Let_def
      split: option.split)

lemma url_draw: "mjpgUrl (snd (drawToCanvas b w)) = mjpgUrl w"
  by (simp add: drawToCanvas_def Let_def split: option.split prod.split)

lemma url_pull:
  "mjpgUrl (loaderImg_onload fid im w) = mjpgUrl w"
  "mjpgUrl (loaderImg_onerror fid w) = mjpgUrl w"
  "mjpgUrl (retryLoad fid w) = mjpgUrl w"
  "mjpgUrl (initializeMjpgStream w) = mjpgUrl w"
  by (simp_all add: loaderImg_onload_def loaderImg_onerror_def retryLoad_def
      initializeMjpgStream_def Let_def case_prod_unfold url_prims url_draw split: option.split)

lemma url_push:
  "mjpgUrl (img_onload im w) = mjpgUrl w"
  "mjpgUrl (img_onerror w) = mjpgUrl w"
  "mjpgUrl (live2d_frame sid f w) = mjpgUrl w"
  "mjpgUrl (flushPending sid w) = mjpgUrl w"
  "mjpgUrl (socket_connect w) = mjpgUrl w"
  "mjpgUrl (emitStartIfConnected w) = mjpgUrl w"
  "mjpgUrl (initializeWebSocketStream w) = mjpgUrl w"
  by (simp_all add: img_onload_def img_onerror_def live2d_frame_def flushPending_def
      socket_connect_def emitStartIfConnected_def initializeWebSocketStream_def Let_def
      case_prod_unfold url_prims url_draw split: option.split)

lemma url_ctl:
  "mjpgUrl (cleanupStream w) = mjpgUrl w"
  "mjpgUrl (initializeLive2DStream w) = mjpgUrl w"
  by (simp_all add: cleanupStream_def initializeLive2DStream_def Let_def url_prims url_pull
      url_push split: option.split)

lemma flag_ctl:
  "useMjpgStream (cleanupStream w) = useMjpgStream w"
  "useMjpgStream (setTimeout cb d w) = useMjpgStream w"
  "useMjpgStream (showNotification m ty w) = useMjpgStream w"
  by (simp_all add: cleanupStream_def setTimeout_def showNotification_def clearTimeout_def
      Let_def split: option.split)

lemma toggle_flag: "useMjpgStream (toggleStreamMethod w) = (\<not> useMjpgStream w)"
  by (simp add: toggleStreamMethod_def Let_def flag_ctl)

lemma toggle_url:
  "mjpgUrl (toggleStreamMethod w) = (if useMjpgStream w then mjpgUrl w else ''/video_feed'')"
  by (simp add: toggleStreamMethod_def Let_def url_ctl url_prims)

lemma url_dispatch: "mjpgUrl (dispatch cb w) = mjpgUrl w"
  by (cases cb) (simp_all add: url_ctl url_prims url_pull url_push)

lemma url_fire: "mjpgUrl (fire i w) = mjpgUrl w"
  by (simp add: fire_def url_dispatch url_prims split: option.split)

lemma url_handle: "mjpgUrl w = ''/video_feed'' \<Longrightarrow> mjpgUrl (handle e w) = ''/video_feed''"
  by (cases e) (simp_all add: url_fire toggle_url url_pull url_push split: option.split)

lemma url_run: "mjpgUrl w = ''/video_feed'' \<Longrightarrow> mjpgUrl (run es w) = ''/video_feed''"
proof (induction es arbitrary: w)
  case Nil
  then show ?case by simp
next
  case (Cons a es)
  obtain t e where a: "a = (t, e)" by (cases a)
  have "mjpgUrl (handle e (w\<lparr>clock := max (clock w) t\<rparr>)) = ''/video_feed''"
    using Cons.prems by (intro url_handle) simp
  then show ?case using Cons.IH a by simp
qed

lemma url_new: "mjpgUrl (LumiEnhancedApp t0 box st) = ''/video_feed''"
  by (simp add: LumiEnhancedApp_def url_ctl constructor_fields_def)

subsection \<open>The page \<open>app0\<close>\<close>

lemmas start_defs = app0_def LumiEnhancedApp_def constructor_fields_def
  initializeLive2DStream_def setupCanvas_def initializeMjpgStream_def loadNextFrame_def
  updateLive2DStatus_def Let_def

lemma app0_surface:
  "canvasContext app0" "currentStream app0 = Some \<lparr>width = 800, height = 600\<rparr>"
  "clock app0 = 1000" "drawOps app0 = []" "useMjpgStream app0"
  by (simp_all add: start_defs)

subsection \<open>The renderer\<close>

subsubsection \<open>Rounding to binary64\<close>

lemma roundEven_error: "\<bar>of_int (roundEven y) - y\<bar> \<le> 1 / 2"
proof -
  have "of_int \<lfloor>y\<rfloor> \<le> y" "y < of_int \<lfloor>y\<rfloor> + 1" by linarith+
  then show ?thesis
    by (auto simp: roundEven_def Let_def)
qed

lemma ulp64_pos: "0 < ulp64 x"
  by (simp add: ulp64_def)

lemma round64_abs_error: "\<bar>round64 x - x\<bar> \<le> ulp64 x / 2"
proof (cases "x = 0")
  case True
  then show ?thesis using ulp64_pos [of x] by (simp add: round64_def)
next
  case False
  have "round64 x - x = (of_int (roundEven (x / ulp64 x)) - x / ulp64 x) * ulp64 x"
    using False ulp64_pos [of x] by (simp add: round64_def field_simps)
  then have "\<bar>round64 x - x\<bar> = \<bar>of_int (roundEven (x / ulp64 x)) - x / ulp64 x\<bar> * ulp64 x"
    using ulp64_pos [of x] by (simp add: abs_mult)
  also have "\<dots> \<le> (1 / 2) * ulp64 x"
    using roundEven_error [of "x / ulp64 x"] ulp64_pos [of x]
    by (intro mult_right_mono) simp_all
  finally show ?thesis by simp
qed

lemma powr2_int: "(2::real) powr (of_int k) = 2 powi k"
  by (simp add: powr_real_of_int')

lemma powi_floor_log_le:
  assumes "0 < a"
  shows "2 powi \<lfloor>log 2 a\<rfloor> \<le> a"
proof -
  have "2 powr (of_int \<lfloor>log 2 a\<rfloor>) \<le> 2 powr (log 2 a)"
    by (intro powr_mono) simp_all
  also have "\<dots> = a" using assms by simp
  finally show ?thesis by (simp add: powr_real_of_int')
qed

lemma ulp64_normal:
  assumes "2 powi (- 1022) \<le> \<bar>x\<bar>"
  shows "ulp64 x \<le> \<bar>x\<bar> / 2 ^ 52"
proof -
  have pos: "0 < \<bar>x\<bar>" using assms zero_less_power_int [of "2::real" "- 1022"] by linarith
  have "2 powr (of_int (- 1022)) \<le> \<bar>x\<bar>" using assms by (simp only: powr2_int)
  then have "of_int (- 1022) \<le> log 2 \<bar>x\<bar>"
    using pos by (simp add: le_log_iff del: of_int_minus)
  then have "- 1022 \<le> \<lfloor>log 2 \<bar>x\<bar>\<rfloor>" by (simp add: le_floor_iff)
  then have "max \<lfloor>log 2 \<bar>x\<bar>\<rfloor> (- 1022) = \<lfloor>log 2 \<bar>x\<bar>\<rfloor>" by linarith
  then have "ulp64 x = 2 powi (\<lfloor>log 2 \<bar>x\<bar>\<rfloor> - 52)" by (simp only: ulp64_def)
  also have "\<dots> = 2 powi \<lfloor>log 2 \<bar>x\<bar>\<rfloor> / 2 ^ 52"
    by (simp add: power_int_diff)
  also have "\<dots> \<le> \<bar>x\<bar> / 2 ^ 52"
    using powi_floor_log_le [OF pos] by (simp add: divide_right_mono)
  finally show ?thesis .
qed

lemma round64_rel_error:
  assumes "2 powi (- 1022) \<le> \<bar>x\<bar>"
  shows "\<bar>round64 x - x\<bar> \<le> \<bar>x\<bar> / 2 ^ 53"
  using round64_abs_error [of x] ulp64_normal [OF assms] by simp

lemma ulp64_general:
  assumes "x \<noteq> 0"
  shows "ulp64 x \<le> \<bar>x\<bar> / 2 ^ 52 + 2 powi (- 1074)"
proof (cases "2 powi (- 1022) \<le> \<bar>x\<bar>")
  case True
  from ulp64_normal [OF True] show ?thesis
    using zero_less_power_int [of "2::real" "- 1074"] by linarith
next
  case False
  then have lt: "\<bar>x\<bar> < 2 powi (- 1022)" by simp
  have pos: "0 < \<bar>x\<bar>" using assms by simp
  have "\<bar>x\<bar> < 2 powr (of_int (- 1022))" using lt by (simp only: powr2_int)
  then have "log 2 \<bar>x\<bar> < of_int (- 1022)"
    using pos by (simp add: log_less_iff del: of_int_minus)
  then have "\<lfloor>log 2 \<bar>x\<bar>\<rfloor> \<le> - 1022" by (simp add: floor_le_iff)
  then have "max \<lfloor>log 2 \<bar>x\<bar>\<rfloor> (- 1022) - 52 = - 1074" by linarith
  then have "ulp64 x = 2 powi (- 1074)" by (simp only: ulp64_def)
  then show ?thesis by simp
qed

lemma round64_gen_error: "\<bar>round64 x - x\<bar> \<le> \<bar>x\<bar> / 2 ^ 53 + 2 powi (- 1075)"
proof (cases "x = 0")
  case True
  then show ?thesis by (simp add: round64_def)
next
  case False
  have "(2::real) powi (- 1074) / 2 = 2 powi (- 1075)"
    using power_int_diff [of "2::real" "- 1074" 1] by simp
  then show ?thesis
    using round64_abs_error [of x] ulp64_general [OF False] by (simp add: field_simps)
qed

lemma tiny_le: "(2::real) powi (- 1022) \<le> 1 / 2 ^ 60"
proof -
  have "(2::real) powi (- 1022) \<le> 2 powi (- 60)"
    by (intro power_int_increasing) simp_all
  then show ?thesis by (simp add: power_int_minus divide_simps)
qed

lemma eta_le: "(2::real) powi (- 1075) \<le> 1 / 2 ^ 60"
proof -
  have "(2::real) powi (- 1075) \<le> 2 powi (- 60)"
    by (intro power_int_increasing) simp_all
  then show ?thesis by (simp add: power_int_minus divide_simps)
qed

lemma round64_factor:
  assumes "1 / 2 ^ 60 \<le> x"
  obtains r where "round64 x = x * (1 + r)" and "\<bar>r\<bar> \<le> 1 / 2 ^ 53"
proof -
  have "(0::real) < 1 / 2 ^ 60" by simp
  with assms have pos: "0 < x" by linarith
  have n: "2 powi (- 1022) \<le> \<bar>x\<bar>" using tiny_le assms by linarith
  define r where "r = (round64 x - x) / x"
  have "round64 x = x * (1 + r)" using pos by (simp add: r_def field_simps)
  moreover have "\<bar>r\<bar> \<le> 1 / 2 ^ 53"
  proof -
    have "\<bar>r\<bar> = \<bar>round64 x - x\<bar> / x" using pos by (simp add: r_def)
    also have "\<dots> \<le> (\<bar>x\<bar> / 2 ^ 53) / x"
      using round64_rel_error [OF n] pos by (intro divide_right_mono) simp_all
    also have "\<dots> = 1 / 2 ^ 53" using pos by simp
    finally show ?thesis .
  qed
  ultimately show ?thesis using that by blast
qed

lemma half_slack:
  assumes "\<bar>a - b\<bar> \<le> 2 ^ 25"
  shows "\<bar>div64 (sub64 a b) 2 - (a - b) / 2\<bar> \<le> 1 / 2 ^ 26"
proof -
  define t where "t = a - b"
  have assms: "\<bar>t\<bar> \<le> 2 ^ 25" using assms by (simp add: t_def)
  define t1 where "t1 = round64 t"
  define h where "h = (2::real) powi (- 1075)"
  have h: "0 < h" "h \<le> 1 / 2 ^ 60" using eta_le by (simp_all add: h_def)
  have e1: "\<bar>t1 - t\<bar> \<le> \<bar>t\<bar> / 2 ^ 53 + h"
    unfolding t1_def h_def by (rule round64_gen_error)
  have e2: "\<bar>round64 (t1 / 2) - t1 / 2\<bar> \<le> \<bar>t1 / 2\<bar> / 2 ^ 53 + h"
    unfolding h_def by (rule round64_gen_error)
  have b1: "\<bar>t\<bar> / 2 ^ 53 \<le> 1 / 2 ^ 28"
    using assms by (simp add: field_simps)
  have b2: "\<bar>t1\<bar> \<le> 2 ^ 26"
  proof -
    have "\<bar>t1\<bar> \<le> \<bar>t1 - t\<bar> + \<bar>t\<bar>" by linarith
    also have "\<dots> \<le> (1 / 2 ^ 28 + h) + 2 ^ 25"
    proof (intro add_mono)
      show "\<bar>t1 - t\<bar> \<le> 1 / 2 ^ 28 + h"
        by (rule order_trans [OF e1]) (use b1 in simp)
    qed (rule assms)
    also have "\<dots> \<le> 2 ^ 26" using h by simp
    finally show ?thesis .
  qed
  have b3: "\<bar>t1 / 2\<bar> / 2 ^ 53 \<le> 1 / 2 ^ 28"
    using b2 by (simp add: field_simps)
  have "round64 (t1 / 2) - t / 2 = (round64 (t1 / 2) - t1 / 2) + (t1 - t) / 2"
    by (simp add: field_simps)
  then have "\<bar>round64 (t1 / 2) - t / 2\<bar> \<le> \<bar>round64 (t1 / 2) - t1 / 2\<bar> + \<bar>(t1 - t) / 2\<bar>"
    using abs_triangle_ineq [of "round64 (t1 / 2) - t1 / 2" "(t1 - t) / 2"] by simp
  also have "\<dots> = \<bar>round64 (t1 / 2) - t1 / 2\<bar> + \<bar>t1 - t\<bar> / 2"
    by simp
  also have "\<dots> \<le> (1 / 2 ^ 28 + h) + (1 / 2 ^ 28 + h) / 2"
  proof (intro add_mono divide_right_mono)
    show "\<bar>round64 (t1 / 2) - t1 / 2\<bar> \<le> 1 / 2 ^ 28 + h"
      by (rule order_trans [OF e2]) (use b3 in simp)
    show "\<bar>t1 - t\<bar> \<le> 1 / 2 ^ 28 + h"
      by (rule order_trans [OF e1]) (use b1 in simp)
  qed simp
  also have "\<dots> \<le> (1 / 2 ^ 28 + 1 / 2 ^ 28) + (1 / 2 ^ 28 + 1 / 2 ^ 28) / 2"
  proof -
    have "h \<le> 1 / 2 ^ 28" by (rule order_trans [OF h(2)]) simp
    then show ?thesis by (intro add_mono divide_right_mono) simp_all
  qed
  also have "\<dots> \<le> 1 / 2 ^ 26" by simp
  finally show ?thesis
    by (simp add: div64_def sub64_def t1_def t_def)
qed

text \<open>Quotients of sides below \<open>2 ^ 25\<close> that differ are far enough apart to stay in
  order when rounded.\<close>

lemma quot_bounds:
  fixes a b :: nat
  assumes "0 < a" "a < 2 ^ 25" "0 < b" "b < 2 ^ 25"
  shows "1 / 2 ^ 25 \<le> real a / real b" and "real a / real b \<le> 2 ^ 25"
proof -
  have a: "1 \<le> real a" "real a \<le> 2 ^ 25" using assms(1,2) by simp_all
  have b: "1 \<le> real b" "real b \<le> 2 ^ 25" using assms(3,4) by simp_all
  have "1 / 2 ^ 25 \<le> 1 / real b" using b by (intro divide_left_mono) simp_all
  also have "\<dots> \<le> real a / real b" using a b by (intro divide_right_mono) simp_all
  finally show "1 / 2 ^ 25 \<le> real a / real b" .
  have "real a / real b \<le> real a / 1" using a b by (intro divide_left_mono) simp_all
  then show "real a / real b \<le> 2 ^ 25" using a by simp
qed

lemma quot_sep:
  fixes a b c d :: nat
  assumes "0 < a" "a < 2 ^ 25" "0 < b" "0 < d" "d < 2 ^ 25"
    and "real a / real b < real c / real d"
  shows "real a / real b * (1 + 1 / 2 ^ 50) \<le> real c / real d"
proof -
  have "real a * real d < real c * real b"
    using assms(3,4,6) by (simp add: field_simps)
  then have "real (a * d) < real (c * b)" by simp
  then have "a * d < c * b" by (simp only: of_nat_less_iff)
  then have "a * d + 1 \<le> c * b" by simp
  then have "real (a * d + 1) \<le> real (c * b)" by (simp only: of_nat_le_iff)
  then have s: "real a * real d + 1 \<le> real c * real b" by simp
  have "a * d \<le> 2 ^ 25 * 2 ^ 25"
    using assms(2,5) by (intro mult_mono) simp_all
  then have "real (a * d) \<le> real (2 ^ 25 * 2 ^ 25)" by (simp only: of_nat_le_iff)
  then have ad: "real a * real d \<le> 2 ^ 50" by simp
  have "real a * real d * (1 + 1 / 2 ^ 50) = real a * real d + real a * real d / 2 ^ 50"
    by (simp add: field_simps)
  also have "\<dots> \<le> real a * real d + 1" using ad by simp
  also have "\<dots> \<le> real c * real b" by (rule s)
  finally have "real a * real d * (1 + 1 / 2 ^ 50) \<le> real c * real b" .
  then have "real a * (1 + 1 / 2 ^ 50) * real d \<le> real c * real b"
    by (simp add: mult.commute mult.left_commute)
  then show ?thesis
    using assms(3,4) by (simp add: field_simps)
qed

lemma round64_order:
  fixes a b c d :: nat
  assumes "0 < a" "a < 2 ^ 25" "0 < b" "b < 2 ^ 25" "0 < c" "c < 2 ^ 25" "0 < d" "d < 2 ^ 25"
    and lt: "real a / real b < real c / real d"
  shows "round64 (real a / real b) < round64 (real c / real d)"
proof -
  let ?x = "real a / real b" and ?y = "real c / real d"
  have xb: "1 / 2 ^ 25 \<le> ?x" by (rule quot_bounds [OF assms(1-4)])
  have yb: "1 / 2 ^ 25 \<le> ?y" by (rule quot_bounds [OF assms(5-8)])
  have x0: "0 < ?x" using assms(1,3) by simp
  have y0: "0 < ?y" using assms(5,7) by simp
  have xn: "1 / 2 ^ 60 \<le> ?x" by (rule order_trans [OF _ xb]) simp
  have yn: "1 / 2 ^ 60 \<le> ?y" by (rule order_trans [OF _ yb]) simp
  obtain r1 where r1: "round64 ?x = ?x * (1 + r1)" "\<bar>r1\<bar> \<le> 1 / 2 ^ 53"
    using round64_factor [OF xn] by blast
  obtain r2 where r2: "round64 ?y = ?y * (1 + r2)" "\<bar>r2\<bar> \<le> 1 / 2 ^ 53"
    using round64_factor [OF yn] by blast
  have "round64 ?x \<le> ?x * (1 + 1 / 2 ^ 53)"
    unfolding r1(1) using r1(2) x0 by (intro mult_left_mono) simp_all
  also have "\<dots> < ?x * ((1 + 1 / 2 ^ 50) * (1 - 1 / 2 ^ 53))"
    using x0 by (intro mult_strict_left_mono) simp_all
  also have "\<dots> = (?x * (1 + 1 / 2 ^ 50)) * (1 - 1 / 2 ^ 53)" by simp
  also have "\<dots> \<le> ?y * (1 - 1 / 2 ^ 53)"
    using quot_sep [OF assms(1,2,3,7,8) lt] by (intro mult_right_mono) simp_all
  also have "\<dots> \<le> round64 ?y"
    unfolding r2(1) using r2(2) y0 by (intro mult_left_mono) simp_all
  finally show ?thesis .
qed

lemma round64_compare:
  fixes a b c d :: nat
  assumes "0 < a" "a < 2 ^ 25" "0 < b" "b < 2 ^ 25" "0 < c" "c < 2 ^ 25" "0 < d" "d < 2 ^ 25"
  shows "(round64 (real c / real d) < round64 (real a / real b))
     = (real c / real d < real a / real b)"
proof (cases "real c / real d < real a / real b")
  case True
  then show ?thesis using round64_order [OF assms(5-8) assms(1-4)] by simp
next
  case False
  show ?thesis
  proof (cases "real c / real d = real a / real b")
    case True
    then show ?thesis by simp
  next
    case ne: False
    with False have "real a / real b < real c / real d" by simp
    from round64_order [OF assms this] False show ?thesis by simp
  qed
qed

text \<open>A rounded number by hand: \<open>k\<close> is the exponent of \<open>x\<close>.\<close>

lemma round64_eval:
  assumes "x \<noteq> 0" and "2 powi k \<le> \<bar>x\<bar>" and "\<bar>x\<bar> < 2 powi (k + 1)" and "- 1022 \<le> k"
  shows "round64 x = of_int (roundEven (x / 2 powi (k - 52))) * 2 powi (k - 52)"
proof -
  have pos: "0 < \<bar>x\<bar>" using assms(1) by simp
  have "2 powr (of_int k) \<le> \<bar>x\<bar>" "\<bar>x\<bar> < 2 powr (of_int (k + 1))"
    using assms(2,3) by (simp_all only: powr2_int)
  then have "2 powr (of_int k) \<le> \<bar>x\<bar> \<and> \<bar>x\<bar> < 2 powr (of_int k + 1)" by simp
  then have "\<lfloor>log 2 \<bar>x\<bar>\<rfloor> = k"
    using floor_log_eq_powr_iff [of "\<bar>x\<bar>" 2 k] pos by simp
  then have "max \<lfloor>log 2 \<bar>x\<bar>\<rfloor> (- 1022) - 52 = k - 52" using assms(4) by linarith
  then have "ulp64 x = 2 powi (k - 52)" by (simp only: ulp64_def)
  then show ?thesis using assms(1) by (simp add: round64_def)
qed

subsubsection \<open>The rectangle\<close>

lemma factor_bounds:
  assumes "\<bar>r\<bar> \<le> 1 / 2 ^ 53"
  shows "1 / 2 \<le> 1 + r" and "1 + r \<le> 2" and "0 < 1 + (r::real)"
proof -
  have "(1::real) / 2 ^ 53 \<le> 1 / 2" by simp
  with assms have "\<bar>r\<bar> \<le> 1 / 2" by (rule order_trans)
  then show "1 / 2 \<le> 1 + r" and "1 + r \<le> 2" and "0 < 1 + r" by linarith+
qed

lemma wide_branch:
  fixes a b c d :: nat
  assumes "0 < a" "a < 2 ^ 25" "0 < b" "b < 2 ^ 25" "0 < c" "c < 2 ^ 25" "0 < d" "d < 2 ^ 25"
    and wide: "real c / real d < real a / real b"
  shows "0 < div64 (real c) (div64 (real a) (real b))"
    and "\<bar>real c / div64 (real c) (div64 (real a) (real b)) - real a / real b\<bar>
           \<le> real a / real b / 2 ^ 51"
    and "\<bar>real d - div64 (real c) (div64 (real a) (real b))\<bar> \<le> 2 ^ 25"
proof -
  define x where "x = real a / real b"
  have xb: "1 / 2 ^ 25 \<le> x" "x \<le> 2 ^ 25"
    unfolding x_def by (rule quot_bounds [OF assms(1-4)])+
  have x0: "0 < x" using assms(1,3) by (simp add: x_def)
  have xn: "1 / 2 ^ 60 \<le> x" by (rule order_trans [OF _ xb(1)]) simp
  obtain r1 where r1: "round64 x = x * (1 + r1)" "\<bar>r1\<bar> \<le> 1 / 2 ^ 53"
    using round64_factor [OF xn] by blast
  note k1 = factor_bounds [OF r1(2)]
  define u where "u = round64 x"
  have u: "u = x * (1 + r1)" by (simp add: u_def r1(1))
  have u0: "0 < u" unfolding u using x0 k1(3) by simp
  have "u \<le> 2 ^ 25 * 2" unfolding u using xb(2) k1(2) k1(3) x0 by (intro mult_mono) simp_all
  then have ub: "u \<le> 2 ^ 26" by simp
  define cr where "cr = real c"
  have c1: "1 \<le> cr" "cr \<le> 2 ^ 25" "0 < cr" using assms(5,6) by (simp_all add: cr_def)
  define z where "z = cr / u"
  have "1 / 2 ^ 26 \<le> 1 / u" using ub u0 by (intro divide_left_mono) simp_all
  also have "\<dots> \<le> z" unfolding z_def using c1 u0 by (intro divide_right_mono) simp_all
  finally have zb: "1 / 2 ^ 26 \<le> z" .
  have zn: "1 / 2 ^ 60 \<le> z" by (rule order_trans [OF _ zb]) simp
  obtain r2 where r2: "round64 z = z * (1 + r2)" "\<bar>r2\<bar> \<le> 1 / 2 ^ 53"
    using round64_factor [OF zn] by blast
  note k2 = factor_bounds [OF r2(2)]
  define rh where "rh = round64 z"
  have rh: "rh = z * (1 + r2)" by (simp add: rh_def r2(1))
  have rh_eq: "div64 (real c) (div64 (real a) (real b)) = rh"
    by (simp add: div64_def rh_def z_def cr_def u_def x_def)
  have z0: "0 < z" unfolding z_def using c1 u0 by simp
  have rh0: "0 < rh" unfolding rh using z0 k2(3) by simp
  show "0 < div64 (real c) (div64 (real a) (real b))" using rh0 by (simp add: rh_eq)
  define p1 where "p1 = 1 + r1"
  define p2 where "p2 = 1 + r2"
  have p: "0 < p1" "0 < p2" using k1(3) k2(3) by (simp_all add: p1_def p2_def)
  have rhp: "rh = cr / (x * p1) * p2" by (simp add: rh z_def u p1_def p2_def)
  have "cr / rh - x = x * ((p1 - p2) / p2)"
    unfolding rhp using c1(3) x0 p by (simp add: field_simps)
  then have "cr / rh - x = x * ((r1 - r2) / (1 + r2))"
    by (simp add: p1_def p2_def)
  then have "\<bar>cr / rh - x\<bar> = x * (\<bar>r1 - r2\<bar> / (1 + r2))"
    using x0 k2(3) by (simp add: abs_mult)
  also have "\<dots> \<le> x * ((1 / 2 ^ 53 + 1 / 2 ^ 53) / (1 / 2))"
  proof (intro mult_left_mono frac_le)
    show "\<bar>r1 - r2\<bar> \<le> 1 / 2 ^ 53 + 1 / 2 ^ 53" using r1(2) r2(2) by linarith
  qed (use x0 k2 in simp_all)
  also have "\<dots> = x / 2 ^ 51" by simp
  finally have F: "\<bar>cr / rh - x\<bar> \<le> x / 2 ^ 51" .
  then show "\<bar>real c / div64 (real c) (div64 (real a) (real b)) - real a / real b\<bar>
           \<le> real a / real b / 2 ^ 51"
    by (simp add: rh_eq x_def cr_def)
  define dr where "dr = real d"
  have d0: "0 < dr" "dr \<le> 2 ^ 25" using assms(7,8) by (simp_all add: dr_def)
  have cb: "cr / x < dr"
    using wide assms(1,3,7) by (simp add: field_simps x_def cr_def dr_def)
  have fine: "(1 + r2) / (1 + r1) \<le> 2"
  proof -
    have "1 + r2 \<le> 1 + 1 / 2 ^ 53" using r2(2) by linarith
    moreover have "1 - 1 / 2 ^ 53 \<le> 1 + r1" using r1(2) by linarith
    ultimately have "(1 + r2) / (1 + r1) \<le> (1 + 1 / 2 ^ 53) / (1 - 1 / 2 ^ 53)"
      using k2(3) by (intro frac_le) simp_all
    also have "\<dots> \<le> 2" by simp
    finally show ?thesis .
  qed
  have "rh = (cr / x) * (p2 / p1)"
    unfolding rhp using x0 p by (simp add: field_simps)
  then have "rh = (cr / x) * ((1 + r2) / (1 + r1))"
    by (simp add: p1_def p2_def)
  also have "\<dots> \<le> (cr / x) * 2"
    using c1(3) x0 fine by (intro mult_left_mono) simp_all
  also have "\<dots> \<le> dr * 2" using cb by (intro mult_right_mono) simp_all
  finally have "rh \<le> 2 * dr" by simp
  with rh0 have "\<bar>dr - rh\<bar> \<le> dr" by linarith
  with d0(2) show "\<bar>real d - div64 (real c) (div64 (real a) (real b))\<bar> \<le> 2 ^ 25"
    by (simp add: rh_eq dr_def)
qed

lemma tall_branch:
  fixes a b c d :: nat
  assumes "0 < a" "a < 2 ^ 25" "0 < b" "b < 2 ^ 25" "0 < c" "c < 2 ^ 25" "0 < d" "d < 2 ^ 25"
    and tall: "real a / real b \<le> real c / real d"
  shows "0 < mul64 (real d) (div64 (real a) (real b))"
    and "\<bar>mul64 (real d) (div64 (real a) (real b)) / real d - real a / real b\<bar>
           \<le> real a / real b / 2 ^ 51"
    and "\<bar>real c - mul64 (real d) (div64 (real a) (real b))\<bar> \<le> 2 ^ 25"
proof -
  define x where "x = real a / real b"
  have xb: "1 / 2 ^ 25 \<le> x" "x \<le> 2 ^ 25"
    unfolding x_def by (rule quot_bounds [OF assms(1-4)])+
  have x0: "0 < x" using assms(1,3) by (simp add: x_def)
  have xn: "1 / 2 ^ 60 \<le> x" by (rule order_trans [OF _ xb(1)]) simp
  obtain r1 where r1: "round64 x = x * (1 + r1)" "\<bar>r1\<bar> \<le> 1 / 2 ^ 53"
    using round64_factor [OF xn] by blast
  note k1 = factor_bounds [OF r1(2)]
  define u where "u = round64 x"
  have u: "u = x * (1 + r1)" by (simp add: u_def r1(1))
  have u0: "0 < u" unfolding u using x0 k1(3) by simp
  have "1 / 2 ^ 25 * (1 / 2) \<le> x * (1 + r1)"
    using xb(1) k1(1) by (intro mult_mono) simp_all
  then have ulow: "1 / 2 ^ 26 \<le> u" by (simp add: u)
  define dr where "dr = real d"
  have d0: "1 \<le> dr" "dr \<le> 2 ^ 25" "0 < dr" using assms(7,8) by (simp_all add: dr_def)
  define m where "m = dr * u"
  have "1 * (1 / 2 ^ 26) \<le> m" unfolding m_def using d0 ulow by (intro mult_mono) simp_all
  then have mb: "1 / 2 ^ 26 \<le> m" by simp
  have mn: "1 / 2 ^ 60 \<le> m" by (rule order_trans [OF _ mb]) simp
  obtain r3 where r3: "round64 m = m * (1 + r3)" "\<bar>r3\<bar> \<le> 1 / 2 ^ 53"
    using round64_factor [OF mn] by blast
  note k3 = factor_bounds [OF r3(2)]
  define rw where "rw = round64 m"
  have rw: "rw = m * (1 + r3)" by (simp add: rw_def r3(1))
  have rw_eq: "mul64 (real d) (div64 (real a) (real b)) = rw"
    by (simp add: mul64_def div64_def rw_def m_def dr_def u_def x_def)
  have m0: "0 < m" unfolding m_def using d0 u0 by simp
  have rw0: "0 < rw" unfolding rw using m0 k3(3) by simp
  show "0 < mul64 (real d) (div64 (real a) (real b))" using rw0 by (simp add: rw_eq)
  have "rw / dr = x * (1 + r1) * (1 + r3)"
    unfolding rw m_def u using d0(3) by simp
  then have "rw / dr - x = x * (r1 + r3 + r1 * r3)"
    by (simp add: algebra_simps)
  then have "\<bar>rw / dr - x\<bar> = x * \<bar>r1 + r3 + r1 * r3\<bar>"
    using x0 by (simp add: abs_mult)
  also have "\<dots> \<le> x * (1 / 2 ^ 53 + 1 / 2 ^ 53 + 1 / 2 ^ 53)"
  proof (intro mult_left_mono)
    have "\<bar>r1 * r3\<bar> = \<bar>r1\<bar> * \<bar>r3\<bar>" by (simp add: abs_mult)
    also have "\<dots> \<le> (1 / 2 ^ 53) * 1"
      using r1(2) r3(2) by (intro mult_mono) simp_all
    finally have "\<bar>r1 * r3\<bar> \<le> 1 / 2 ^ 53" by simp
    then show "\<bar>r1 + r3 + r1 * r3\<bar> \<le> 1 / 2 ^ 53 + 1 / 2 ^ 53 + 1 / 2 ^ 53"
      using r1(2) r3(2) by linarith
  qed (use x0 in simp)
  also have "\<dots> \<le> x / 2 ^ 51" using x0 by (simp add: field_simps)
  finally have F: "\<bar>rw / dr - x\<bar> \<le> x / 2 ^ 51" .
  then show "\<bar>mul64 (real d) (div64 (real a) (real b)) / real d - real a / real b\<bar>
           \<le> real a / real b / 2 ^ 51"
    by (simp add: rw_eq dr_def x_def)
  define cr where "cr = real c"
  have c0: "cr \<le> 2 ^ 25" "0 < cr" using assms(5,6) by (simp_all add: cr_def)
  have dx: "dr * x \<le> cr"
    using tall assms(7) by (simp add: field_simps dr_def x_def cr_def)
  have kk: "(1 + r1) * (1 + r3) \<le> 2"
  proof -
    have "1 + r1 \<le> 1 + 1 / 2 ^ 53" "1 + r3 \<le> 1 + 1 / 2 ^ 53"
      using r1(2) r3(2) by linarith+
    then have "(1 + r1) * (1 + r3) \<le> (1 + 1 / 2 ^ 53) * (1 + 1 / 2 ^ 53)"
      using k1(3) k3(3) by (intro mult_mono) simp_all
    also have "\<dots> \<le> (2::real)" by simp
    finally show ?thesis .
  qed
  have "rw = (dr * x) * ((1 + r1) * (1 + r3))"
    unfolding rw m_def u by simp
  also have "\<dots> \<le> cr * 2"
    using dx kk k1(3) k3(3) c0(2) by (intro mult_mono) simp_all
  finally have "rw \<le> 2 * cr" by simp
  with rw0 have "\<bar>cr - rw\<bar> \<le> cr" by linarith
  with c0(1) show "\<bar>real c - mul64 (real d) (div64 (real a) (real b))\<bar> \<le> 2 ^ 25"
    by (simp add: rw_eq cr_def)
qed

lemma renderRect_wide:
  fixes iw ih cw ch :: nat
  assumes "0 < iw" "iw < 2 ^ 25" "0 < ih" "ih < 2 ^ 25" "0 < cw" "cw < 2 ^ 25" "0 < ch" "ch < 2 ^ 25"
    and wide: "real cw / real ch < real iw / real ih"
  shows "renderRect iw ih cw ch =
     (0, div64 (sub64 (real ch) (div64 (real cw) (div64 (real iw) (real ih)))) 2,
      real cw, div64 (real cw) (div64 (real iw) (real ih)))"
proof -
  have "div64 (real cw) (real ch) < div64 (real iw) (real ih)"
    unfolding div64_def using round64_compare [OF assms(1-8)] wide by simp
  then show ?thesis by (simp add: renderRect_def Let_def)
qed

lemma renderRect_tall:
  fixes iw ih cw ch :: nat
  assumes "0 < iw" "iw < 2 ^ 25" "0 < ih" "ih < 2 ^ 25" "0 < cw" "cw < 2 ^ 25" "0 < ch" "ch < 2 ^ 25"
    and tall: "\<not> real cw / real ch < real iw / real ih"
  shows "renderRect iw ih cw ch =
     (div64 (sub64 (real cw) (mul64 (real ch) (div64 (real iw) (real ih)))) 2, 0,
      mul64 (real ch) (div64 (real iw) (real ih)), real ch)"
proof -
  have "\<not> div64 (real cw) (real ch) < div64 (real iw) (real ih)"
    unfolding div64_def using round64_compare [OF assms(1-8)] tall by simp
  then show ?thesis by (simp add: renderRect_def Let_def)
qed

lemma renderRect_fit:
  fixes iw ih cw ch :: nat
  assumes "0 < iw" "iw < 2 ^ 25" "0 < ih" "ih < 2 ^ 25" "0 < cw" "cw < 2 ^ 25" "0 < ch" "ch < 2 ^ 25"
  shows "\<exists>ox oy rw rh. renderRect iw ih cw ch = (ox, oy, rw, rh)
     \<and> (if real iw / real ih > real cw / real ch
        then rw = real cw \<and> ox = 0 \<and> \<bar>oy - (real ch - rh) / 2\<bar> \<le> 1 / 2 ^ 26
        else rh = real ch \<and> oy = 0 \<and> \<bar>ox - (real cw - rw) / 2\<bar> \<le> 1 / 2 ^ 26)
     \<and> 0 < rw \<and> 0 < rh
     \<and> \<bar>rw / rh - real iw / real ih\<bar> \<le> real iw / real ih / 2 ^ 51"
proof (cases "real cw / real ch < real iw / real ih")
  case True
  let ?rh = "div64 (real cw) (div64 (real iw) (real ih))"
  note b = wide_branch [OF assms True]
  have "renderRect iw ih cw ch = (0, div64 (sub64 (real ch) ?rh) 2, real cw, ?rh)"
    by (rule renderRect_wide [OF assms True])
  moreover have "\<bar>div64 (sub64 (real ch) ?rh) 2 - (real ch - ?rh) / 2\<bar> \<le> 1 / 2 ^ 26"
    by (rule half_slack [OF b(3)])
  moreover have "0 < real cw" using assms(5) by simp
  ultimately show ?thesis using True b(1) b(2) by simp
next
  case False
  let ?rw = "mul64 (real ch) (div64 (real iw) (real ih))"
  from False have le: "real iw / real ih \<le> real cw / real ch" by simp
  note b = tall_branch [OF assms le]
  have "renderRect iw ih cw ch = (div64 (sub64 (real cw) ?rw) 2, 0, ?rw, real ch)"
    by (rule renderRect_tall [OF assms False])
  moreover have "\<bar>div64 (sub64 (real cw) ?rw) 2 - (real cw - ?rw) / 2\<bar> \<le> 1 / 2 ^ 26"
    by (rule half_slack [OF b(3)])
  moreover have "0 < real ch" using assms(7) by simp
  ultimately show ?thesis using False b(1) b(2) by simp
qed

text \<open>The rectangle at three inputs, each operation rounded by \<open>round64_eval\<close>.\<close>

lemma canvasAspect_4_3: "round64 (4 / 3) = 6004799503160661 / 2 ^ 52"
  using round64_eval [of "4 / 3" 0] by (simp add: roundEven_def Let_def)

lemma imgAspect_6_13: "round64 (6 / 13) = 8314337773607070 / 2 ^ 54"
  using round64_eval [of "6 / 13" "- 2"] by (simp add: roundEven_def Let_def)

lemma renderWidth_6_13: "round64 (600 * (8314337773607070 / 2 ^ 54)) = 4871682289222893 / 2 ^ 44"
  using round64_eval [of "600 * (8314337773607070 / 2 ^ 54)" 8] by (simp add: roundEven_def Let_def)

lemma slack_6_13: "round64 (800 - 4871682289222893 / 2 ^ 44) = 4601033273154954 / 2 ^ 43"
  using round64_eval [of "800 - 4871682289222893 / 2 ^ 44" 9] by (simp add: roundEven_def Let_def)

lemma offsetX_6_13: "round64 (4601033273154954 / 2 ^ 43 / 2) = 4601033273154954 / 2 ^ 44"
  using round64_eval [of "4601033273154954 / 2 ^ 43 / 2" 8] by (simp add: roundEven_def Let_def)

lemma renderRect_1080_2340: "renderRect 1080 2340 800 600
   = (4601033273154954 / 2 ^ 44, 0, 4871682289222893 / 2 ^ 44, 600)"
proof -
  have u: "div64 (real 1080) (real 2340) = 8314337773607070 / 2 ^ 54"
    using imgAspect_6_13 by (simp add: div64_def)
  have v: "div64 (real 800) (real 600) = 6004799503160661 / 2 ^ 52"
    using canvasAspect_4_3 by (simp add: div64_def)
  have rw: "mul64 (real 600) (8314337773607070 / 2 ^ 54) = 4871682289222893 / 2 ^ 44"
    using renderWidth_6_13 by (simp add: mul64_def)
  have t: "sub64 (real 800) (4871682289222893 / 2 ^ 44) = 4601033273154954 / 2 ^ 43"
    using slack_6_13 by (simp add: sub64_def)
  have ox: "div64 (sub64 (real 800) (4871682289222893 / 2 ^ 44)) 2 = 4601033273154954 / 2 ^ 44"
    unfolding t using offsetX_6_13 by (simp add: div64_def)
  show ?thesis
    unfolding renderRect_def Let_def u v rw ox by simp
qed

lemma imgAspect_412_667: "round64 (412 / 667) = 5563667305777045 / 2 ^ 53"
  using round64_eval [of "412 / 667" "- 1"] by (simp add: roundEven_def Let_def)

lemma renderWidth_412_667: "round64 (667 * (5563667305777045 / 2 ^ 53)) = 7247980650299393 / 2 ^ 44"
  using round64_eval [of "667 * (5563667305777045 / 2 ^ 53)" 8] by (simp add: roundEven_def Let_def)

lemma slack_412_667: "round64 (412 - 7247980650299393 / 2 ^ 44) = - 1 / 2 ^ 44"
  using round64_eval [of "412 - 7247980650299393 / 2 ^ 44" "- 44"] by (simp add: roundEven_def Let_def)

lemma offsetX_412_667: "round64 (- 1 / 2 ^ 44 / 2) = - 1 / 2 ^ 45"
  using round64_eval [of "- 1 / 2 ^ 44 / 2" "- 45"] by (simp add: roundEven_def Let_def)

lemma renderRect_same_shape: "renderRect 412 667 412 667
   = (- 1 / 2 ^ 45, 0, 7247980650299393 / 2 ^ 44, 667)"
proof -
  have u: "div64 (real 412) (real 667) = 5563667305777045 / 2 ^ 53"
    using imgAspect_412_667 by (simp add: div64_def)
  have rw: "mul64 (real 667) (5563667305777045 / 2 ^ 53) = 7247980650299393 / 2 ^ 44"
    using renderWidth_412_667 by (simp add: mul64_def)
  have t: "sub64 (real 412) (7247980650299393 / 2 ^ 44) = - 1 / 2 ^ 44"
    using slack_412_667 by (simp add: sub64_def)
  have ox: "div64 (sub64 (real 412) (7247980650299393 / 2 ^ 44)) 2 = - 1 / 2 ^ 45"
    unfolding t using offsetX_412_667 by (simp add: div64_def)
  show ?thesis
    unfolding renderRect_def Let_def u rw ox by simp
qed

text \<open>Beyond the bound on the sides the comparison can go the other way: a bitmap of
  134217729 by 134217728 is relatively wider than a canvas of 134217730 by 134217729,
  the two quotients round to the same number, and the rectangle is fitted to the
  canvas's height.\<close>

lemma compare_beyond_bound:
  "real 134217730 / real 134217729 < real 134217729 / real 134217728
   \<and> div64 (real 134217730) (real 134217729) = div64 (real 134217729) (real 134217728)
   \<and> snd (snd (snd (renderRect 134217729 134217728 134217730 134217729))) = 134217729"
proof -
  have c: "round64 (134217730 / 134217729) = 134217729 / 134217728"
    using round64_eval [of "134217730 / 134217729" 0] by (simp add: roundEven_def Let_def)
  have i: "round64 (134217729 / 134217728) = 134217729 / 134217728"
    using round64_eval [of "134217729 / 134217728" 0] by (simp add: roundEven_def Let_def)
  have e: "div64 (real 134217730) (real 134217729) = div64 (real 134217729) (real 134217728)"
    using c i by (simp add: div64_def)
  have "snd (snd (snd (renderRect 134217729 134217728 134217730 134217729))) = 134217729"
    unfolding renderRect_def Let_def e by simp
  with e show ?thesis by simp
qed

lemma drawToCanvas_paints:
  assumes "canvasContext w" and "currentStream w = Some canvas"
    and "0 < width img" and "0 < height img" and "0 < width canvas" and "0 < height canvas"
    and "renderRect (width img) (height img) (width canvas) (height canvas) = (ox, oy, rw, rh)"
  shows "drawToCanvas (Some img) w =
       (None, w\<lparr>drawOps := drawOps w @
          [(clock w, ClearRect 0 0 (real (width canvas)) (real (height canvas))),
           (clock w, DrawImage img ox oy rw rh)]\<rparr>)"
  using assms by (simp add: drawToCanvas_def)

lemma drawToCanvas_no_surface:
  "\<not> canvasContext w \<or> currentStream w = None \<Longrightarrow> drawToCanvas bitmap w = (None, w)"
  by (cases "currentStream w") (simp_all add: drawToCanvas_def)

lemma drawToCanvas_bitmap_ok: "fst (drawToCanvas (Some img) w) = None"
  by (simp add: drawToCanvas_def Let_def split: option.split prod.split)

text \<open>
  \<^bold>\<open>C9\<close>, as the code has it. The claim says that the drawn rectangle is centred and
  keeps the bitmap's aspect ratio. The quotient, the product and the difference of lines
  411 to 427 are binary64 operations, each of them rounded. For a 1080 by 2340 bitmap on
  the 800 by 600 canvas of \<open>app0\<close> the bitmap is not the wider one and the rectangle has
  the canvas's height, 600; its width is \<open>4871682289222893 / 2 ^ 44\<close>
  (276.92307692307696), so that width by height is not 1080 by 2340; and \<open>offsetX\<close> is
  \<open>4601033273154954 / 2 ^ 44\<close> (261.53846153846155), which is not half of what the
  rectangle leaves of the canvas's width.
\<close>

theorem drawToCanvas_aspect_not_exact:
  "drawToCanvas (Some \<lparr>width = 1080, height = 2340, src = DataUrl ''data:image/png''\<rparr>) app0 =
     (None, app0\<lparr>drawOps := drawOps app0 @
        [(1000, ClearRect 0 0 800 600),
         (1000, DrawImage \<lparr>width = 1080, height = 2340, src = DataUrl ''data:image/png''\<rparr>
            (4601033273154954 / 2 ^ 44) 0 (4871682289222893 / 2 ^ 44) 600)]\<rparr>)
   \<and> \<not> (1080::real) / 2340 > 800 / 600
   \<and> (4871682289222893 / 2 ^ 44) / 600 \<noteq> (1080::real) / 2340
   \<and> 4601033273154954 / 2 ^ 44 \<noteq> (800 - 4871682289222893 / 2 ^ 44) / (2::real)"
proof -
  let ?img = "\<lparr>width = 1080, height = 2340, src = DataUrl ''data:image/png''\<rparr>"
  have r: "renderRect (width ?img) (height ?img)
             (width \<lparr>width = 800, height = 600\<rparr>) (height \<lparr>width = 800, height = 600\<rparr>)
           = (4601033273154954 / 2 ^ 44, 0, 4871682289222893 / 2 ^ 44, 600)"
    using renderRect_1080_2340 by simp
  have "drawToCanvas (Some ?img) app0 =
     (None, app0\<lparr>drawOps := drawOps app0 @
        [(clock app0, ClearRect 0 0 (real (width \<lparr>width = 800, height = 600\<rparr>))
                                   (real (height \<lparr>width = 800, height = 600\<rparr>))),
         (clock app0, DrawImage ?img
            (4601033273154954 / 2 ^ 44) 0 (4871682289222893 / 2 ^ 44) 600)]\<rparr>)"
    by (rule drawToCanvas_paints [OF app0_surface(1) app0_surface(2) _ _ _ _ r]) simp_all
  then have "drawToCanvas (Some ?img) app0 =
     (None, app0\<lparr>drawOps := drawOps app0 @
        [(1000, ClearRect 0 0 800 600),
         (1000, DrawImage ?img
            (4601033273154954 / 2 ^ 44) 0 (4871682289222893 / 2 ^ 44) 600)]\<rparr>)"
    by (simp only: app0_surface(3) sized.simps of_nat_numeral)
  moreover have "\<not> (1080::real) / 2340 > 800 / 600" by simp
  moreover have "(4871682289222893 / 2 ^ 44) / 600 \<noteq> (1080::real) / 2340" by simp
  moreover have "4601033273154954 / 2 ^ 44 \<noteq> (800 - 4871682289222893 / 2 ^ 44) / (2::real)"
    by simp
  ultimately show ?thesis by (intro conjI)
qed

text \<open>With the same sides for the bitmap and for the canvas, 412 by 667, the rectangle
  is wider than the canvas (412.00000000000006) and starts left of it.\<close>

lemma drawToCanvas_same_shape:
  "renderRect 412 667 412 667 = (- 1 / 2 ^ 45, 0, 7247980650299393 / 2 ^ 44, 667)
   \<and> (412::real) < 7247980650299393 / 2 ^ 44 \<and> - 1 / 2 ^ 45 < (0::real)"
  using renderRect_same_shape by simp

text \<open>
  \<^bold>\<open>C9, amended.\<close> On a live surface, for a bitmap and a canvas with sides that are
  positive and below \<open>2 ^ 25\<close>, \<open>drawToCanvas\<close> clears the canvas and draws the bitmap
  once, in a rectangle chosen by comparing the two aspect ratios, and the comparison of
  the rounded quotients decides as the comparison of the exact ones. When the bitmap is
  relatively wider the rectangle has the canvas's width, starts at the left edge and is
  centred vertically up to rounding; otherwise it has the canvas's height, starts at the
  top edge and is centred horizontally up to rounding: the offset is within \<open>1 / 2 ^ 26\<close>
  of half of what the rectangle leaves of the canvas. In both cases the sides of the
  rectangle are positive and their ratio is the bitmap's aspect ratio up to rounding,
  with a relative error of at most \<open>1 / 2 ^ 51\<close>.
\<close>

theorem drawToCanvas_aspect_fit_rounded:
  assumes "canvasContext w" and "currentStream w = Some canvas"
    and "0 < width img" and "width img < 2 ^ 25"
    and "0 < height img" and "height img < 2 ^ 25"
    and "0 < width canvas" and "width canvas < 2 ^ 25"
    and "0 < height canvas" and "height canvas < 2 ^ 25"
  shows "\<exists>offsetX offsetY renderWidth renderHeight.
     drawToCanvas (Some img) w =
       (None, w\<lparr>drawOps := drawOps w @
          [(clock w, ClearRect 0 0 (real (width canvas)) (real (height canvas))),
           (clock w, DrawImage img offsetX offsetY renderWidth renderHeight)]\<rparr>)
     \<and> (div64 (real (width img)) (real (height img))
           > div64 (real (width canvas)) (real (height canvas)))
       = (real (width img) / real (height img) > real (width canvas) / real (height canvas))
     \<and> (if real (width img) / real (height img) > real (width canvas) / real (height canvas)
        then renderWidth = real (width canvas) \<and> offsetX = 0
           \<and> \<bar>offsetY - (real (height canvas) - renderHeight) / 2\<bar> \<le> 1 / 2 ^ 26
        else renderHeight = real (height canvas) \<and> offsetY = 0
           \<and> \<bar>offsetX - (real (width canvas) - renderWidth) / 2\<bar> \<le> 1 / 2 ^ 26)
     \<and> 0 < renderWidth \<and> 0 < renderHeight
     \<and> \<bar>renderWidth / renderHeight - real (width img) / real (height img)\<bar>
         \<le> real (width img) / real (height img) / 2 ^ 51"
proof -
  note sides = assms(3-10)
  obtain ox oy rw rh
    where r: "renderRect (width img) (height img) (width canvas) (height canvas) = (ox, oy, rw, rh)"
      and f: "if real (width img) / real (height img) > real (width canvas) / real (height canvas)
        then rw = real (width canvas) \<and> ox = 0
           \<and> \<bar>oy - (real (height canvas) - rh) / 2\<bar> \<le> 1 / 2 ^ 26
        else rh = real (height canvas) \<and> oy = 0
           \<and> \<bar>ox - (real (width canvas) - rw) / 2\<bar> \<le> 1 / 2 ^ 26"
      and p: "0 < rw" "0 < rh"
      and a: "\<bar>rw / rh - real (width img) / real (height img)\<bar>
         \<le> real (width img) / real (height img) / 2 ^ 51"
    using renderRect_fit [OF sides] by blast
  have d: "drawToCanvas (Some img) w =
       (None, w\<lparr>drawOps := drawOps w @
          [(clock w, ClearRect 0 0 (real (width canvas)) (real (height canvas))),
           (clock w, DrawImage img ox oy rw rh)]\<rparr>)"
    by (rule drawToCanvas_paints [OF assms(1,2) assms(3) assms(5) assms(7) assms(9) r])
  have c: "(div64 (real (width img)) (real (height img))
           > div64 (real (width canvas)) (real (height canvas)))
       = (real (width img) / real (height img) > real (width canvas) / real (height canvas))"
    unfolding div64_def by (rule round64_compare [OF sides])
  from d c f p a show ?thesis by blast
qed

text \<open>The theorem at a 1280 by 720 bitmap on the 800 by 600 canvas of \<open>app0\<close>: the
  bitmap is the wider one, the rectangle has the width 800 and starts at the left edge.\<close>

theorem drawToCanvas_aspect_fit_rounded_witness:
  "canvasContext app0 \<and> currentStream app0 = Some \<lparr>width = 800, height = 600\<rparr>
   \<and> (\<exists>offsetY renderHeight.
     drawToCanvas (Some \<lparr>width = 1280, height = 720, src = DataUrl ''data:image/png''\<rparr>) app0 =
       (None, app0\<lparr>drawOps := drawOps app0 @
          [(clock app0, ClearRect 0 0 800 600),
           (clock app0, DrawImage \<lparr>width = 1280, height = 720, src = DataUrl ''data:image/png''\<rparr>
              0 offsetY 800 renderHeight)]\<rparr>)
     \<and> \<bar>offsetY - (600 - renderHeight) / 2\<bar> \<le> 1 / 2 ^ 26 \<and> 0 < renderHeight
     \<and> \<bar>800 / renderHeight - 1280 / 720\<bar> \<le> 1280 / 720 / 2 ^ 51)"
proof -
  let ?img = "\<lparr>width = 1280, height = 720, src = DataUrl ''data:image/png''\<rparr>"
  obtain ox oy rw rh where d: "drawToCanvas (Some ?img) app0 =
       (None, app0\<lparr>drawOps := drawOps app0 @
          [(clock app0, ClearRect 0 0 800 600), (clock app0, DrawImage ?img ox oy rw rh)]\<rparr>)"
    and f: "rw = 800 \<and> ox = 0 \<and> \<bar>oy - (600 - rh) / 2\<bar> \<le> 1 / 2 ^ 26"
    and p: "0 < rh"
    and a: "\<bar>rw / rh - 1280 / 720\<bar> \<le> 1280 / 720 / 2 ^ 51"
    using drawToCanvas_aspect_fit_rounded [OF app0_surface(1) app0_surface(2), of ?img] by force
  from d f p a show ?thesis using app0_surface(1) app0_surface(2) by blast
qed

text \<open>
  \<^bold>\<open>C7\<close>, as the code has it. The claim says that \<open>drawToCanvas\<close> never throws and
  that a missing surface or a missing bitmap makes it a no-op. The guard of line 402 looks
  at the surface only. On the live surface of \<open>app0\<close> a \<open>null\<close> bitmap is not a no-op:
  the canvas is cleared, then reading \<open>image.width\<close> throws a \<open>TypeError\<close>.
\<close>

theorem drawToCanvas_null_bitmap_throws:
  "fst (drawToCanvas None app0) = Some TypeError
   \<and> snd (drawToCanvas None app0) \<noteq> app0
   \<and> drawOps (snd (drawToCanvas None app0)) = drawOps app0 @ [(1000, ClearRect 0 0 800 600)]"
proof -
  have d: "drawOps (snd (drawToCanvas None app0)) = drawOps app0 @ [(1000, ClearRect 0 0 800 600)]"
    by (simp add: drawToCanvas_def app0_surface)
  have "drawOps (snd (drawToCanvas None app0)) \<noteq> drawOps app0"
    by (simp add: d)
  then have "snd (drawToCanvas None app0) \<noteq> app0" by metis
  moreover have "fst (drawToCanvas None app0) = Some TypeError"
    by (simp add: drawToCanvas_def app0_surface)
  ultimately show ?thesis using d by simp
qed

lemma drawToCanvas_null_bitmap:
  assumes "canvasContext w" and "currentStream w = Some canvas"
  shows "drawToCanvas None w =
     (Some TypeError, w\<lparr>drawOps := drawOps w @
        [(clock w, ClearRect 0 0 (real (width canvas)) (real (height canvas)))]\<rparr>)"
  using assms by (simp add: drawToCanvas_def)

text \<open>
  \<^bold>\<open>C7, amended.\<close> When the context or the canvas is missing, \<open>drawToCanvas\<close> is a
  no-op with no side effect, whatever the bitmap; with a bitmap that is not \<open>null\<close> it
  never throws; it throws only for a \<open>null\<close> bitmap on a live surface; and on every
  live surface a \<open>null\<close> bitmap is not a no-op: the canvas is cleared, nothing else is
  done, and a \<open>TypeError\<close> is thrown.
\<close>

theorem drawToCanvas_guard:
  "(\<not> canvasContext w \<or> currentStream w = None \<longrightarrow> drawToCanvas bitmap w = (None, w))
   \<and> fst (drawToCanvas (Some img) w) = None
   \<and> (fst (drawToCanvas bitmap w) \<noteq> None \<longrightarrow>
        bitmap = None \<and> canvasContext w \<and> currentStream w \<noteq> None)
   \<and> (canvasContext w \<and> currentStream w = Some canvas \<longrightarrow>
        drawToCanvas None w =
          (Some TypeError, w\<lparr>drawOps := drawOps w @
             [(clock w, ClearRect 0 0 (real (width canvas)) (real (height canvas)))]\<rparr>))"
proof (intro conjI impI)
  assume "\<not> canvasContext w \<or> currentStream w = None"
  then show "drawToCanvas bitmap w = (None, w)" by (rule drawToCanvas_no_surface)
next
  show "fst (drawToCanvas (Some img) w) = None" by (rule drawToCanvas_bitmap_ok)
next
  assume t: "fst (drawToCanvas bitmap w) \<noteq> None"
  then show "bitmap = None" by (cases bitmap) (simp_all add: drawToCanvas_bitmap_ok)
  from t show "canvasContext w" by (cases "canvasContext w") (simp_all add: drawToCanvas_no_surface)
  from t show "currentStream w \<noteq> None"
    by (cases "currentStream w") (simp_all add: drawToCanvas_no_surface)
next
  assume "canvasContext w \<and> currentStream w = Some canvas"
  then show "drawToCanvas None w =
          (Some TypeError, w\<lparr>drawOps := drawOps w @
             [(clock w, ClearRect 0 0 (real (width canvas)) (real (height canvas)))]\<rparr>)"
    by (intro drawToCanvas_null_bitmap) simp_all
qed

lemma fields_no_surface: "currentStream (constructor_fields t0 box st) = None"
  by (simp add: constructor_fields_def)

text \<open>The theorem before the canvas exists (the fields as the constructor sets them),
  and on \<open>app0\<close>, where the \<open>null\<close> bitmap does throw.\<close>

theorem drawToCanvas_guard_witness:
  "drawToCanvas None (constructor_fields 1000 None None) = (None, constructor_fields 1000 None None)
   \<and> fst (drawToCanvas (Some \<lparr>width = 640, height = 480, src = DataUrl ''data:image/png''\<rparr>) app0) = None
   \<and> fst (drawToCanvas None app0) \<noteq> None \<and> canvasContext app0 \<and> currentStream app0 \<noteq> None
   \<and> currentStream app0 = Some \<lparr>width = 800, height = 600\<rparr>
   \<and> drawToCanvas None app0 =
        (Some TypeError, app0\<lparr>drawOps := drawOps app0 @ [(clock app0, ClearRect 0 0 800 600)]\<rparr>)"
proof -
  have t: "fst (drawToCanvas None app0) \<noteq> None"
    by (simp add: drawToCanvas_def app0_surface)
  have c: "drawToCanvas None app0 =
        (Some TypeError, app0\<lparr>drawOps := drawOps app0 @ [(clock app0, ClearRect 0 0 800 600)]\<rparr>)"
    using drawToCanvas_guard [of app0 None
        "\<lparr>width = 640, height = 480, src = DataUrl ''data:image/png''\<rparr>"
        "\<lparr>width = 800, height = 600\<rparr>"] app0_surface(1) app0_surface(2)
    by simp
  show ?thesis
    using drawToCanvas_guard [of "constructor_fields 1000 None None" None
        "\<lparr>width = 640, height = 480, src = DataUrl ''data:image/png''\<rparr>"
        "\<lparr>width = 800, height = 600\<rparr>"]
      drawToCanvas_guard [of app0 None
        "\<lparr>width = 640, height = 480, src = DataUrl ''data:image/png''\<rparr>"
        "\<lparr>width = 800, height = 600\<rparr>"]
      fields_no_surface [of 1000 None None] t c app0_surface(2)
    by simp
qed

subsection \<open>The mode toggle\<close>

text \<open>
  \<^bold>\<open>C10.\<close> From any state, two calls of \<open>toggleStreamMethod\<close> give back the value of
  \<open>useMjpgStream\<close>; after a call that leaves \<open>useMjpgStream\<close> true, \<open>mjpgUrl\<close> is
  \<open>/video_feed\<close>; and in every state the page reaches from the constructor, by any
  events, \<open>mjpgUrl\<close> is \<open>/video_feed\<close> whenever \<open>useMjpgStream\<close> is true.
\<close>

theorem toggleStreamMethod_involution:
  "useMjpgStream (toggleStreamMethod (toggleStreamMethod w)) = useMjpgStream w
   \<and> (useMjpgStream (toggleStreamMethod w) \<longrightarrow> mjpgUrl (toggleStreamMethod w) = ''/video_feed'')
   \<and> (useMjpgStream (run es (LumiEnhancedApp t0 box st)) \<longrightarrow>
        mjpgUrl (run es (LumiEnhancedApp t0 box st)) = ''/video_feed'')"
  by (simp add: toggle_flag toggle_url url_run url_new)

text \<open>The theorem at the state after one toggle of \<open>app0\<close>, and at the run of two
  clicks on the toggle button.\<close>

theorem toggleStreamMethod_involution_witness:
  "useMjpgStream (toggleStreamMethod (toggleStreamMethod (toggleStreamMethod app0)))
     = useMjpgStream (toggleStreamMethod app0)
   \<and> useMjpgStream (toggleStreamMethod (toggleStreamMethod app0))
   \<and> mjpgUrl (toggleStreamMethod (toggleStreamMethod app0)) = ''/video_feed''
   \<and> useMjpgStream (run [(2000, ClickToggle), (2050, ClickToggle)]
        (LumiEnhancedApp 1000 (Some \<lparr>width = 800, height = 600\<rparr>)
           (Some (connecting, ''status-offline''))))
   \<and> mjpgUrl (run [(2000, ClickToggle), (2050, ClickToggle)]
        (LumiEnhancedApp 1000 (Some \<lparr>width = 800, height = 600\<rparr>)
           (Some (connecting, ''status-offline''))))
       = ''/video_feed''"
proof -
  have a: "useMjpgStream (toggleStreamMethod (toggleStreamMethod app0))"
    by (simp add: toggle_flag app0_surface)
  have b: "useMjpgStream (run [(2000, ClickToggle), (2050, ClickToggle)]
        (LumiEnhancedApp 1000 (Some \<lparr>width = 800, height = 600\<rparr>)
           (Some (connecting, ''status-offline''))))"
    using app0_surface(5) by (simp add: toggle_flag app0_def)
  show ?thesis
    using toggleStreamMethod_involution [of "toggleStreamMethod app0"
        "[(2000, ClickToggle), (2050, ClickToggle)]" 1000 "Some \<lparr>width = 800, height = 600\<rparr>"
        "Some (connecting, ''status-offline'')"] a b
    by blast
qed

subsection \<open>Helper facts for the feeds\<close>

lemmas handler_defs = toggleStreamMethod_def cleanupStream_def initializeLive2DStream_def
  setupCanvas_def initializeMjpgStream_def initializeWebSocketStream_def loadNextFrame_def
  loaderImg_onload_def loaderImg_onerror_def retryLoad_def processWebSocketFrame_def
  img_onload_def img_onerror_def truthy_def live2d_frame_def flushPending_def emit_def
  socket_connect_def emitStartIfConnected_def fire_def setTimeout_def clearTimeout_def
  showNotification_def updateLive2DStatus_def drawToCanvas_def case_prod_unfold Let_def
  app0_def LumiEnhancedApp_def constructor_fields_def

lemma status_upd:
  "updateLive2DStatus s w =
     w\<lparr>statusElement := map_option (\<lambda>_. (s, statusClass s)) (statusElement w)\<rparr>"
  by (cases "statusElement w") (simp_all add: updateLive2DStatus_def)

lemma painted_append: "painted (xs @ ys) = painted xs @ painted ys"
  by (induction xs rule: painted.induct) simp_all

lemma run_append: "run (xs @ ys) w = run ys (run xs w)"
  by (induction xs arbitrary: w) auto

lemma new_app:
  "useMjpgStream (LumiEnhancedApp t0 (Some rect) st)"
  "loaderSrc (LumiEnhancedApp t0 (Some rect) st) 0 = Some (UrlT ''/video_feed'' t0)"
  "timers (LumiEnhancedApp t0 (Some rect) st) = []"
  "clock (LumiEnhancedApp t0 (Some rect) st) = t0"
  "nextTimer (LumiEnhancedApp t0 (Some rect) st) = 1"
  "requests (LumiEnhancedApp t0 (Some rect) st) = [(t0, UrlT ''/video_feed'' t0)]"
  "mjpgUrl (LumiEnhancedApp t0 (Some rect) st) = ''/video_feed''"
  "uncaught (LumiEnhancedApp t0 (Some rect) st) = []"
  "statusElement (LumiEnhancedApp t0 (Some rect) st)
     = map_option (\<lambda>_. (mjpg_stream, ''status-online'')) st"
  by (simp_all add: LumiEnhancedApp_def constructor_fields_def initializeLive2DStream_def
      setupCanvas_def initializeMjpgStream_def loadNextFrame_def status_upd Let_def)

lemma throttled0_fields:
  "useMjpgStream throttled0" "clock throttled0 = 1250" "lastFrameTime throttled0 = 1230"
  "frameInterval throttled0 = 100" "mjpgUrl throttled0 = ''/video_feed''"
  "requests throttled0 = [(1000, UrlT ''/video_feed'' 1000), (1220, UrlT ''/video_feed'' 1220)]"
  "loaderSrc throttled0 2 = Some (UrlT ''/video_feed'' 1220)"
  "nextTimer throttled0 = 5"
  "timers throttled0 = [\<lparr>timer_id = 2, due = 2110, callback = EmitStartIfConnected\<rparr>,
                        \<lparr>timer_id = 4, due = 1330, callback = LoadNextFrame 0\<rparr>]"
  by (simp_all add: throttled0_def handler_defs)


subsection \<open>The socket feed\<close>

text \<open>
  \<^bold>\<open>C1\<close>, evaluated on the code. The page switches to the socket feed, the socket
  connects and every timer of the start-up has fired. With \<open>frameInterval = 100\<close>, three
  frames arrive at 3000, 3030 and 3060 (the claim's 0, 30 and 60) and the first one is
  decoded at once. The claim expects paints at 3000 and 3100. The handler stores the
  second and the third frame in \<open>pendingFrame\<close> and returns before the \<open>setTimeout\<close> of
  line 551: only the frame of 3000 is painted, no timer is pending and nothing is being
  decoded, so the frame of 3060 stays in \<open>pendingFrame\<close> until another frame arrives.
\<close>

theorem push_pending_frame_never_flushed:
  "frameInterval app0 = 100
   \<and> map (\<lambda>p. (fst p, src (snd p)))
     (painted (drawOps (run
       [(1010, ClickToggle), (1110, Fire 1), (1150, SocketConnect 1), (1650, Fire 3), (2110, Fire 2),
        (3000, Live2dFrame 1 (Some ''data:image/a'')), (3000, ImgLoad ''data:image/a'' 640 480),
        (3030, Live2dFrame 1 (Some ''data:image/b'')),
        (3060, Live2dFrame 1 (Some ''data:image/c''))] app0)))
    = [(3000, DataUrl ''data:image/a'')]
   \<and> timers (run
       [(1010, ClickToggle), (1110, Fire 1), (1150, SocketConnect 1), (1650, Fire 3), (2110, Fire 2),
        (3000, Live2dFrame 1 (Some ''data:image/a'')), (3000, ImgLoad ''data:image/a'' 640 480),
        (3030, Live2dFrame 1 (Some ''data:image/b'')),
        (3060, Live2dFrame 1 (Some ''data:image/c''))] app0) = []
   \<and> decoding (run
       [(1010, ClickToggle), (1110, Fire 1), (1150, SocketConnect 1), (1650, Fire 3), (2110, Fire 2),
        (3000, Live2dFrame 1 (Some ''data:image/a'')), (3000, ImgLoad ''data:image/a'' 640 480),
        (3030, Live2dFrame 1 (Some ''data:image/b'')),
        (3060, Live2dFrame 1 (Some ''data:image/c''))] app0) = []
   \<and> pendingFrame (run
       [(1010, ClickToggle), (1110, Fire 1), (1150, SocketConnect 1), (1650, Fire 3), (2110, Fire 2),
        (3000, Live2dFrame 1 (Some ''data:image/a'')), (3000, ImgLoad ''data:image/a'' 640 480),
        (3030, Live2dFrame 1 (Some ''data:image/b'')),
        (3060, Live2dFrame 1 (Some ''data:image/c''))] app0) 1 = Some ''data:image/c''"
  by (simp add: handler_defs)

text \<open>
  \<^bold>\<open>C2\<close>, evaluated on the code. Same start; frames arrive at 3000, 3050, 3100 and
  3201, each decoded at once. The frame of 3050 is stored; the frame of 3100 is accepted
  and, a frame being stored, the flush is scheduled for 3200. The flush paints the stored
  frame without touching \<open>lastFrameTime\<close>, which is still 3100, so the frame of 3201 is
  accepted too: two paints of the socket feed 1 ms apart, with \<open>frameInterval = 100\<close>.
  The stored frame of 3050 is also painted after the newer frame of 3100.
\<close>

theorem push_flush_breaks_frame_budget:
  "frameInterval app0 = 100
   \<and> map (\<lambda>p. (fst p, src (snd p)))
     (painted (drawOps (run
       [(1010, ClickToggle), (1110, Fire 1), (1150, SocketConnect 1), (1650, Fire 3), (2110, Fire 2),
        (3000, Live2dFrame 1 (Some ''data:image/a'')), (3000, ImgLoad ''data:image/a'' 640 480),
        (3050, Live2dFrame 1 (Some ''data:image/b'')),
        (3100, Live2dFrame 1 (Some ''data:image/c'')), (3100, ImgLoad ''data:image/c'' 640 480),
        (3200, Fire 4), (3200, ImgLoad ''data:image/b'' 640 480),
        (3201, Live2dFrame 1 (Some ''data:image/d'')), (3201, ImgLoad ''data:image/d'' 640 480)]
       app0)))
    = [(3000, DataUrl ''data:image/a''), (3100, DataUrl ''data:image/c''),
       (3200, DataUrl ''data:image/b''), (3201, DataUrl ''data:image/d'')]"
  by (simp add: handler_defs)









subsection \<open>The polling feed\<close>

lemma onload_throttled:
  assumes "clock w - lastFrameTime w < frameInterval w"
  shows "loaderImg_onload fid img w =
     (w\<lparr>isLoading := False\<rparr>)\<lparr>timers := timers w @
        [\<lparr>timer_id = nextTimer w, due = lastFrameTime w + frameInterval w,
          callback = LoadNextFrame fid\<rparr>],
       nextTimer := Suc (nextTimer w)\<rparr>"
proof -
  have "clock w + max 0 (frameInterval w - (clock w - lastFrameTime w))
          = lastFrameTime w + frameInterval w"
    using assms by simp
  then show ?thesis
    using assms by (simp add: loaderImg_onload_def Let_def setTimeout_def)
qed

text \<open>
  \<^bold>\<open>C3\<close>, as the code has it. The claim says a frame fetched too early is presented
  after the remaining delay, with no new request. In the run below two polling feeds have
  a request in flight (the mode was switched away and back while the first request was
  pending). The response of feed 0 is accepted at 1230; the response of feed 2, fetched
  by the request of 1220, arrives at 1250, 20 ms later. It is never painted; its handler
  schedules \<open>loadNextFrame\<close> for 1330, and a third request goes out then. The timer set
  by the accepted frame is due at 1330 as well; the result is the same in either order.
\<close>

theorem pull_throttled_frame_dropped:
  "useMjpgStream (run
       [(1010, ClickToggle), (1110, Fire 1), (1120, ClickToggle), (1220, Fire 3),
        (1230, LoaderLoad 0 640 480), (1250, LoaderLoad 2 640 480),
        (1330, Fire 5), (1330, Fire 4)] app0)
   \<and> requests (run
       [(1010, ClickToggle), (1110, Fire 1), (1120, ClickToggle), (1220, Fire 3),
        (1230, LoaderLoad 0 640 480), (1250, LoaderLoad 2 640 480)] app0)
     = [(1000, UrlT ''/video_feed'' 1000), (1220, UrlT ''/video_feed'' 1220)]
   \<and> requests (run
       [(1010, ClickToggle), (1110, Fire 1), (1120, ClickToggle), (1220, Fire 3),
        (1230, LoaderLoad 0 640 480), (1250, LoaderLoad 2 640 480),
        (1330, Fire 5), (1330, Fire 4)] app0)
     = [(1000, UrlT ''/video_feed'' 1000), (1220, UrlT ''/video_feed'' 1220),
        (1330, UrlT ''/video_feed'' 1330)]
   \<and> map (\<lambda>p. (fst p, src (snd p))) (painted (drawOps (run
       [(1010, ClickToggle), (1110, Fire 1), (1120, ClickToggle), (1220, Fire 3),
        (1230, LoaderLoad 0 640 480), (1250, LoaderLoad 2 640 480),
        (1330, Fire 5), (1330, Fire 4)] app0)))
     = [(1230, UrlT ''/video_feed'' 1000)]
   \<and> requests (run
       [(1010, ClickToggle), (1110, Fire 1), (1120, ClickToggle), (1220, Fire 3),
        (1230, LoaderLoad 0 640 480), (1250, LoaderLoad 2 640 480),
        (1330, Fire 4), (1330, Fire 5)] app0)
     = [(1000, UrlT ''/video_feed'' 1000), (1220, UrlT ''/video_feed'' 1220),
        (1330, UrlT ''/video_feed'' 1330)]
   \<and> map (\<lambda>p. (fst p, src (snd p))) (painted (drawOps (run
       [(1010, ClickToggle), (1110, Fire 1), (1120, ClickToggle), (1220, Fire 3),
        (1230, LoaderLoad 0 640 480), (1250, LoaderLoad 2 640 480),
        (1330, Fire 4), (1330, Fire 5)] app0)))
     = [(1230, UrlT ''/video_feed'' 1000)]"
  by (simp add: handler_defs)

text \<open>
  \<^bold>\<open>C3, amended.\<close> When a fetched frame arrives less than \<open>frameInterval\<close> after the
  last accepted frame, \<open>loaderImg.onload\<close> skips it: nothing is drawn, \<open>lastFrameTime\<close>
  stays, and the only effect besides clearing \<open>isLoading\<close> is one timer for
  \<open>loadNextFrame\<close>, due when the remaining delay is over, that is at
  \<open>lastFrameTime + frameInterval\<close>. When that callback runs it draws nothing either,
  and in polling mode it issues a new request, stamped with the time at which it runs.
\<close>

theorem pull_throttle_skips_and_refetches:
  assumes "clock w - lastFrameTime w < frameInterval w"
  shows "drawOps (loaderImg_onload fid img w) = drawOps w
     \<and> lastFrameTime (loaderImg_onload fid img w) = lastFrameTime w
     \<and> requests (loaderImg_onload fid img w) = requests w
     \<and> timers (loaderImg_onload fid img w) = timers w @
          [\<lparr>timer_id = nextTimer w, due = lastFrameTime w + frameInterval w,
            callback = LoadNextFrame fid\<rparr>]
     \<and> drawOps (dispatch (LoadNextFrame fid) ((loaderImg_onload fid img w)\<lparr>clock := t\<rparr>))
          = drawOps w
     \<and> (useMjpgStream w \<longrightarrow>
          requests (dispatch (LoadNextFrame fid) ((loaderImg_onload fid img w)\<lparr>clock := t\<rparr>))
            = requests w @ [(t, UrlT (mjpgUrl w) t)])"
  by (simp add: onload_throttled [OF assms] loadNextFrame_def Let_def)

text \<open>The theorem at \<open>throttled0\<close>, where the response of feed 2 arrives 20 ms after
  the accepted frame and the rescheduled callback runs at 1330.\<close>

theorem pull_throttle_skips_and_refetches_witness:
  "clock throttled0 - lastFrameTime throttled0 < frameInterval throttled0
   \<and> useMjpgStream throttled0
   \<and> drawOps (loaderImg_onload 2 \<lparr>width = 640, height = 480, src = UrlT ''/video_feed'' 1220\<rparr>
        throttled0) = drawOps throttled0
   \<and> timers (loaderImg_onload 2 \<lparr>width = 640, height = 480, src = UrlT ''/video_feed'' 1220\<rparr>
        throttled0)
      = [\<lparr>timer_id = 2, due = 2110, callback = EmitStartIfConnected\<rparr>,
         \<lparr>timer_id = 4, due = 1330, callback = LoadNextFrame 0\<rparr>,
         \<lparr>timer_id = 5, due = 1330, callback = LoadNextFrame 2\<rparr>]
   \<and> requests (dispatch (LoadNextFrame 2)
        ((loaderImg_onload 2 \<lparr>width = 640, height = 480, src = UrlT ''/video_feed'' 1220\<rparr>
            throttled0)\<lparr>clock := 1330\<rparr>))
      = [(1000, UrlT ''/video_feed'' 1000), (1220, UrlT ''/video_feed'' 1220),
         (1330, UrlT ''/video_feed'' 1330)]"
proof -
  have h: "clock throttled0 - lastFrameTime throttled0 < frameInterval throttled0"
    by (simp add: throttled0_fields)
  show ?thesis
    using pull_throttle_skips_and_refetches
      [OF h, of 2 "\<lparr>width = 640, height = 480, src = UrlT ''/video_feed'' 1220\<rparr>" 1330]
    by (simp add: throttled0_fields)
qed

lemma mode_checked_at_request:
  "\<not> useMjpgStream w \<Longrightarrow> loadNextFrame fid w = w \<and> retryLoad fid w = w"
  by (simp add: loadNextFrame_def retryLoad_def)

text \<open>
  \<^bold>\<open>C4\<close>, evaluated on the code. The first request of the polling feed is in flight
  when the mode is switched at 1010; the socket feed starts at 1110 on a new canvas and
  sets the status element to the socket stream. The response arrives at 1300, in socket
  mode. The mode flag is read where a request is about to be made (\<open>loadNextFrame\<close> and
  the retry callback, which then do nothing), but \<open>loaderImg.onload\<close> does not read it:
  the response is not discarded. The stale frame is painted on the socket feed's canvas
  and the status element is set back to the polling stream.
\<close>

theorem pull_response_presented_after_switch:
  "\<not> useMjpgStream (run
       [(1010, ClickToggle), (1110, Fire 1), (1300, LoaderLoad 0 640 480)] app0)
   \<and> requests (run [(1010, ClickToggle), (1110, Fire 1)] app0)
       = [(1000, UrlT ''/video_feed'' 1000)]
   \<and> painted (drawOps (run [(1010, ClickToggle), (1110, Fire 1)] app0)) = []
   \<and> painted (drawOps (run
       [(1010, ClickToggle), (1110, Fire 1), (1300, LoaderLoad 0 640 480)] app0))
     = [(1300, \<lparr>width = 640, height = 480, src = UrlT ''/video_feed'' 1000\<rparr>)]
   \<and> statusElement (run [(1010, ClickToggle), (1110, Fire 1)] app0)
     = Some (virtual_camera, ''status-online'')
   \<and> statusElement (run
       [(1010, ClickToggle), (1110, Fire 1), (1300, LoaderLoad 0 640 480)] app0)
     = Some (mjpg_stream, ''status-online'')"
  by (simp add: handler_defs)

lemma onerror_eq:
  "loaderImg_onerror fid w =
     w\<lparr>isLoading := False,
       statusElement := map_option (\<lambda>_. (error, ''status-error'')) (statusElement w),
       timers := timers w @
         [\<lparr>timer_id = nextTimer w, due = clock w + 1000, callback = RetryLoad fid\<rparr>],
       nextTimer := Suc (nextTimer w)\<rparr>"
  by (simp add: loaderImg_onerror_def setTimeout_def status_upd)

lemma retry_requests:
  assumes "useMjpgStream w"
  shows "requests (dispatch (RetryLoad fid) ((loaderImg_onerror fid w)\<lparr>clock := t\<rparr>))
           = requests w @ [(t, UrlT (mjpgUrl w) t)]"
  using assms by (simp add: retryLoad_def loadNextFrame_def Let_def onerror_eq)

text \<open>One failure and its retry: the response fails at \<open>t\<close>, the timer it sets fires
  at \<open>r\<close>, not before it is due.\<close>

lemma failure_cycle:
  assumes "useMjpgStream w" and "loaderSrc w fid = Some u" and "timers w = []"
    and "clock w \<le> t" and "t + 1000 \<le> r"
  shows "run [(t, LoaderError fid), (r, Fire (nextTimer w))] w =
     w\<lparr>clock := r, isLoading := True,
       loaderSrc := (loaderSrc w)(fid := Some (UrlT (mjpgUrl w) r)),
       requests := requests w @ [(r, UrlT (mjpgUrl w) r)],
       statusElement := map_option (\<lambda>_. (error, ''status-error'')) (statusElement w),
       nextTimer := Suc (nextTimer w)\<rparr>"
proof -
  have m1: "max (clock w) t = t" and m2: "max t r = r" using assms(4,5) by simp_all
  show ?thesis
    using assms(1-3,5)
    by (simp add: m1 m2 onerror_eq fire_def retryLoad_def loadNextFrame_def
        clearTimeout_def Let_def)
qed

lemma three_failures:
  assumes "t0 \<le> t1" "t1 + 1000 \<le> r1" "r1 \<le> t2" "t2 + 1000 \<le> r2" "r2 \<le> t3" "t3 + 1000 \<le> r3"
  shows "run [(t1, LoaderError 0), (r1, Fire 1), (t2, LoaderError 0), (r2, Fire 2),
              (t3, LoaderError 0), (r3, Fire 3)] (LumiEnhancedApp t0 (Some rect) st)
         = (LumiEnhancedApp t0 (Some rect) st)
             \<lparr>clock := r3, isLoading := True,
              loaderSrc := (loaderSrc (LumiEnhancedApp t0 (Some rect) st))
                              (0 := Some (UrlT ''/video_feed'' r3)),
              requests := [(t0, UrlT ''/video_feed'' t0), (r1, UrlT ''/video_feed'' r1),
                           (r2, UrlT ''/video_feed'' r2), (r3, UrlT ''/video_feed'' r3)],
              statusElement := map_option (\<lambda>_. (error, ''status-error'')) st,
              nextTimer := 4\<rparr>"
proof -
  let ?A = "LumiEnhancedApp t0 (Some rect) st"
  let ?U = "UrlT ''/video_feed''"
  define w1 where "w1 = run [(t1, LoaderError 0), (r1, Fire 1)] ?A"
  define w2 where "w2 = run [(t2, LoaderError 0), (r2, Fire 2)] w1"
  have "clock ?A \<le> t1" using assms(1) by (simp add: new_app)
  from failure_cycle [OF new_app(1) new_app(2) new_app(3) this assms(2), unfolded new_app]
  have e1: "w1 = ?A\<lparr>clock := r1, isLoading := True,
       loaderSrc := (loaderSrc ?A)(0 := Some (?U r1)),
       requests := [(t0, ?U t0)] @ [(r1, ?U r1)],
       statusElement := map_option (\<lambda>_. (error, ''status-error''))
                          (map_option (\<lambda>_. (mjpg_stream, ''status-online'')) st),
       nextTimer := Suc 1\<rparr>"
    unfolding w1_def .
  have f1: "useMjpgStream w1" "loaderSrc w1 0 = Some (?U r1)" "timers w1 = []"
    "clock w1 \<le> t2" "nextTimer w1 = 2" "mjpgUrl w1 = ''/video_feed''"
    using assms(3) by (simp_all add: e1 new_app)
  from failure_cycle [OF f1(1) f1(2) f1(3) f1(4) assms(4), unfolded f1(5) f1(6)]
  have e2: "w2 = w1\<lparr>clock := r2, isLoading := True,
       loaderSrc := (loaderSrc w1)(0 := Some (?U r2)),
       requests := requests w1 @ [(r2, ?U r2)],
       statusElement := map_option (\<lambda>_. (error, ''status-error'')) (statusElement w1),
       nextTimer := Suc 2\<rparr>"
    unfolding w2_def .
  have f2: "useMjpgStream w2" "loaderSrc w2 0 = Some (?U r2)" "timers w2 = []"
    "clock w2 \<le> t3" "nextTimer w2 = 3" "mjpgUrl w2 = ''/video_feed''"
    using assms(5) f1 by (simp_all add: e2)
  from failure_cycle [OF f2(1) f2(2) f2(3) f2(4) assms(6), unfolded f2(5) f2(6)]
  have e3: "run [(t3, LoaderError 0), (r3, Fire 3)] w2 = w2\<lparr>clock := r3, isLoading := True,
       loaderSrc := (loaderSrc w2)(0 := Some (?U r3)),
       requests := requests w2 @ [(r3, ?U r3)],
       statusElement := map_option (\<lambda>_. (error, ''status-error'')) (statusElement w2),
       nextTimer := Suc 3\<rparr>" .
  have split: "run [(t1, LoaderError 0), (r1, Fire 1), (t2, LoaderError 0), (r2, Fire 2),
              (t3, LoaderError 0), (r3, Fire 3)] ?A
        = run [(t3, LoaderError 0), (r3, Fire 3)] w2"
    using run_append [of "[(t1, LoaderError 0), (r1, Fire 1)]"
        "[(t2, LoaderError 0), (r2, Fire 2), (t3, LoaderError 0), (r3, Fire 3)]" ?A]
      run_append [of "[(t2, LoaderError 0), (r2, Fire 2)]"
        "[(t3, LoaderError 0), (r3, Fire 3)]" w1]
    by (simp only: w1_def w2_def append.simps)
  show ?thesis
    unfolding split e3 by (simp add: e2 e1 option.map_comp comp_def)
qed

lemma early_fire:
  assumes "t0 \<le> t1" "r < t1 + 1000"
  shows "requests (run [(t1, LoaderError 0), (r, Fire 1)] (LumiEnhancedApp t0 (Some rect) st))
         = [(t0, UrlT ''/video_feed'' t0)]"
proof -
  have m1: "max t0 t1 = t1" using assms(1) by simp
  show ?thesis
    using assms(2) by (simp add: new_app m1 onerror_eq fire_def)
qed

text \<open>
  \<^bold>\<open>C5.\<close> A failed fetch of the polling feed: \<open>loaderImg.onerror\<close> sets the status
  element, if the page has one, to the error status at once, requests nothing itself,
  throws nothing and sets exactly one timer, due 1000 ms later whatever \<open>frameInterval\<close>
  is (the handler does the same with any other value of it). When the timer's callback
  runs in polling mode it issues one request. From the constructor, three failures in a
  row, each answered by its timer firing when due or later, give exactly three further
  requests, at the times the timers fire, no exception, an empty timer list and the error
  status; each retry is at least 1000 ms after its failure, hence after the retry before
  it. A timer fired earlier than 1000 ms after the failure does nothing.
\<close>

theorem pull_failure_retry:
  "statusElement (loaderImg_onerror fid w)
     = map_option (\<lambda>_. (error, ''status-error'')) (statusElement w)
   \<and> timers (loaderImg_onerror fid w) = timers w @
        [\<lparr>timer_id = nextTimer w, due = clock w + 1000, callback = RetryLoad fid\<rparr>]
   \<and> requests (loaderImg_onerror fid w) = requests w
   \<and> uncaught (loaderImg_onerror fid w) = uncaught w
   \<and> loaderImg_onerror fid (w\<lparr>frameInterval := B\<rparr>)
       = (loaderImg_onerror fid w)\<lparr>frameInterval := B\<rparr>
   \<and> (useMjpgStream w \<longrightarrow>
        requests (dispatch (RetryLoad fid) ((loaderImg_onerror fid w)\<lparr>clock := t\<rparr>))
          = requests w @ [(t, UrlT (mjpgUrl w) t)])
   \<and> (t0 \<le> t1 \<and> t1 + 1000 \<le> r1 \<and> r1 \<le> t2 \<and> t2 + 1000 \<le> r2 \<and> r2 \<le> t3 \<and> t3 + 1000 \<le> r3
       \<longrightarrow> requests (run [(t1, LoaderError 0), (r1, Fire 1), (t2, LoaderError 0), (r2, Fire 2),
                          (t3, LoaderError 0), (r3, Fire 3)] (LumiEnhancedApp t0 (Some rect) st))
             = [(t0, UrlT ''/video_feed'' t0), (r1, UrlT ''/video_feed'' r1),
                (r2, UrlT ''/video_feed'' r2), (r3, UrlT ''/video_feed'' r3)]
         \<and> uncaught (run [(t1, LoaderError 0), (r1, Fire 1), (t2, LoaderError 0), (r2, Fire 2),
                          (t3, LoaderError 0), (r3, Fire 3)] (LumiEnhancedApp t0 (Some rect) st))
             = []
         \<and> timers (run [(t1, LoaderError 0), (r1, Fire 1), (t2, LoaderError 0), (r2, Fire 2),
                          (t3, LoaderError 0), (r3, Fire 3)] (LumiEnhancedApp t0 (Some rect) st))
             = []
         \<and> statusElement (run [(t1, LoaderError 0), (r1, Fire 1), (t2, LoaderError 0),
                          (r2, Fire 2), (t3, LoaderError 0), (r3, Fire 3)]
                          (LumiEnhancedApp t0 (Some rect) st))
             = map_option (\<lambda>_. (error, ''status-error'')) st)
   \<and> (t0 \<le> t1 \<and> r < t1 + 1000
       \<longrightarrow> requests (run [(t1, LoaderError 0), (r, Fire 1)] (LumiEnhancedApp t0 (Some rect) st))
             = [(t0, UrlT ''/video_feed'' t0)])"
proof (intro conjI impI)
  show "loaderImg_onerror fid (w\<lparr>frameInterval := B\<rparr>)
       = (loaderImg_onerror fid w)\<lparr>frameInterval := B\<rparr>"
    by (simp add: onerror_eq)
next
  assume "useMjpgStream w"
  then show "requests (dispatch (RetryLoad fid) ((loaderImg_onerror fid w)\<lparr>clock := t\<rparr>))
          = requests w @ [(t, UrlT (mjpgUrl w) t)]"
    by (rule retry_requests)
next
  assume a: "t0 \<le> t1 \<and> t1 + 1000 \<le> r1 \<and> r1 \<le> t2 \<and> t2 + 1000 \<le> r2 \<and> r2 \<le> t3 \<and> t3 + 1000 \<le> r3"
  then have e: "run [(t1, LoaderError 0), (r1, Fire 1), (t2, LoaderError 0), (r2, Fire 2),
              (t3, LoaderError 0), (r3, Fire 3)] (LumiEnhancedApp t0 (Some rect) st)
         = (LumiEnhancedApp t0 (Some rect) st)
             \<lparr>clock := r3, isLoading := True,
              loaderSrc := (loaderSrc (LumiEnhancedApp t0 (Some rect) st))
                              (0 := Some (UrlT ''/video_feed'' r3)),
              requests := [(t0, UrlT ''/video_feed'' t0), (r1, UrlT ''/video_feed'' r1),
                           (r2, UrlT ''/video_feed'' r2), (r3, UrlT ''/video_feed'' r3)],
              statusElement := map_option (\<lambda>_. (error, ''status-error'')) st,
              nextTimer := 4\<rparr>"
    by (intro three_failures) simp_all
  show "requests (run [(t1, LoaderError 0), (r1, Fire 1), (t2, LoaderError 0), (r2, Fire 2),
                          (t3, LoaderError 0), (r3, Fire 3)] (LumiEnhancedApp t0 (Some rect) st))
             = [(t0, UrlT ''/video_feed'' t0), (r1, UrlT ''/video_feed'' r1),
                (r2, UrlT ''/video_feed'' r2), (r3, UrlT ''/video_feed'' r3)]"
    unfolding e by simp
  show "uncaught (run [(t1, LoaderError 0), (r1, Fire 1), (t2, LoaderError 0), (r2, Fire 2),
                          (t3, LoaderError 0), (r3, Fire 3)] (LumiEnhancedApp t0 (Some rect) st))
             = []"
    unfolding e by (simp add: new_app)
  show "timers (run [(t1, LoaderError 0), (r1, Fire 1), (t2, LoaderError 0), (r2, Fire 2),
                          (t3, LoaderError 0), (r3, Fire 3)] (LumiEnhancedApp t0 (Some rect) st))
             = []"
    unfolding e by (simp add: new_app)
  show "statusElement (run [(t1, LoaderError 0), (r1, Fire 1), (t2, LoaderError 0),
                          (r2, Fire 2), (t3, LoaderError 0), (r3, Fire 3)]
                          (LumiEnhancedApp t0 (Some rect) st))
             = map_option (\<lambda>_. (error, ''status-error'')) st"
    unfolding e by simp
next
  assume "t0 \<le> t1 \<and> r < t1 + 1000"
  then show "requests (run [(t1, LoaderError 0), (r, Fire 1)] (LumiEnhancedApp t0 (Some rect) st))
             = [(t0, UrlT ''/video_feed'' t0)]"
    by (intro early_fire) simp_all
qed (simp_all add: onerror_eq)

text \<open>The theorem on \<open>app0\<close>: a failure at 1200 retried at 2200, one at 2300 retried at
  3300, one at 3400 retried at 4400; and a timer fired at 1500, before it is due.\<close>

theorem pull_failure_retry_witness:
  "useMjpgStream app0
   \<and> statusElement (loaderImg_onerror 0 app0) = Some (error, ''status-error'')
   \<and> requests (dispatch (RetryLoad 0) ((loaderImg_onerror 0 app0)\<lparr>clock := 2200\<rparr>))
       = requests app0 @ [(2200, UrlT (mjpgUrl app0) 2200)]
   \<and> requests (run [(1200, LoaderError 0), (2200, Fire 1), (2300, LoaderError 0), (3300, Fire 2),
                    (3400, LoaderError 0), (4400, Fire 3)]
        (LumiEnhancedApp 1000 (Some \<lparr>width = 800, height = 600\<rparr>)
           (Some (connecting, ''status-offline''))))
       = [(1000, UrlT ''/video_feed'' 1000), (2200, UrlT ''/video_feed'' 2200),
          (3300, UrlT ''/video_feed'' 3300), (4400, UrlT ''/video_feed'' 4400)]
   \<and> uncaught (run [(1200, LoaderError 0), (2200, Fire 1), (2300, LoaderError 0), (3300, Fire 2),
                    (3400, LoaderError 0), (4400, Fire 3)]
        (LumiEnhancedApp 1000 (Some \<lparr>width = 800, height = 600\<rparr>)
           (Some (connecting, ''status-offline'')))) = []
   \<and> statusElement (run [(1200, LoaderError 0), (2200, Fire 1), (2300, LoaderError 0),
                    (3300, Fire 2), (3400, LoaderError 0), (4400, Fire 3)]
        (LumiEnhancedApp 1000 (Some \<lparr>width = 800, height = 600\<rparr>)
           (Some (connecting, ''status-offline'')))) = Some (error, ''status-error'')
   \<and> requests (run [(1200, LoaderError 0), (1500, Fire 1)]
        (LumiEnhancedApp 1000 (Some \<lparr>width = 800, height = 600\<rparr>)
           (Some (connecting, ''status-offline''))))
       = [(1000, UrlT ''/video_feed'' 1000)]"
proof -
  have s: "statusElement app0 = Some (mjpg_stream, ''status-online'')"
    by (simp add: app0_def new_app)
  have a: "(1000::int) \<le> 1200 \<and> (1200::int) + 1000 \<le> 2200 \<and> (2200::int) \<le> 2300
      \<and> (2300::int) + 1000 \<le> 3300 \<and> (3300::int) \<le> 3400 \<and> (3400::int) + 1000 \<le> 4400"
    by simp
  have b: "(1000::int) \<le> 1200 \<and> (1500::int) < 1200 + 1000" by simp
  have m: "map_option (\<lambda>_. (error, ''status-error'')) (Some (connecting, ''status-offline''))
            = Some (error, ''status-error'')"
    "map_option (\<lambda>_. (error, ''status-error'')) (statusElement app0)
            = Some (error, ''status-error'')"
    by (simp_all add: s)
  show ?thesis
    using pull_failure_retry [where fid = 0 and w = app0 and B = 100 and t = 2200
        and ?t0.0 = 1000 and ?t1.0 = 1200 and ?r1.0 = 2200 and ?t2.0 = 2300 and ?r2.0 = 3300
        and ?t3.0 = 3400 and ?r3.0 = 4400 and r = 1500
        and rect = "\<lparr>width = 800, height = 600\<rparr>" and st = "Some (connecting, ''status-offline'')"]
      a b m app0_surface(5)
    by metis
qed

subsection \<open>Teardown\<close>

text \<open>
  \<^bold>\<open>C8\<close>, evaluated on the code. The polling feed has painted a frame at 1050 and
  set its timer for \<open>loadNextFrame\<close>, due at 1150. The mode is switched at 1100. The
  claim says no timer of the torn-down feed remains. \<open>cleanupStream\<close> clears only the
  ids in \<open>mjpgRefreshInterval\<close> and \<open>canvasRenderTimeout\<close>, fields that nothing ever
  sets, so the feed's timer is still pending after the switch. Likewise, when the mode
  is switched back at 1250, before the socket of the socket feed has connected, the
  socket is neither closed nor dropped, and the socket feed's timer for 2200 stays.
\<close>

theorem toggle_leaves_timer_and_socket:
  "timers (run [(1050, LoaderLoad 0 640 480)] app0)
     = [\<lparr>timer_id = 1, due = 1150, callback = LoadNextFrame 0\<rparr>]
   \<and> mjpgRefreshInterval (run [(1050, LoaderLoad 0 640 480)] app0) = None
   \<and> canvasRenderTimeout (run [(1050, LoaderLoad 0 640 480)] app0) = None
   \<and> timers (run [(1050, LoaderLoad 0 640 480), (1100, ClickToggle)] app0)
     = [\<lparr>timer_id = 1, due = 1150, callback = LoadNextFrame 0\<rparr>,
        \<lparr>timer_id = 2, due = 1200, callback = InitStream\<rparr>]
   \<and> timers (run [(1050, LoaderLoad 0 640 480), (1100, ClickToggle), (1150, Fire 1),
                  (1200, Fire 2), (1250, ClickToggle)] app0)
     = [\<lparr>timer_id = 3, due = 2200, callback = EmitStartIfConnected\<rparr>,
        \<lparr>timer_id = 4, due = 1350, callback = InitStream\<rparr>]
   \<and> sockets (run [(1050, LoaderLoad 0 640 480), (1100, ClickToggle), (1150, Fire 1),
                  (1200, Fire 2), (1250, ClickToggle)] app0) 1 = Connecting
   \<and> live2dSocket (run [(1050, LoaderLoad 0 640 480), (1100, ClickToggle), (1150, Fire 1),
                  (1200, Fire 2), (1250, ClickToggle)] app0) = Some 1"
  by (simp add: handler_defs)

subsection \<open>The throttle of the accepting paths\<close>

text \<open>The two paths that accept a frame as it arrives do keep the frame budget: the
  polling feed draws, and the socket feed hands a frame to the decoder, only when at least
  \<open>frameInterval\<close> has passed since \<open>lastFrameTime\<close>, and both then set
  \<open>lastFrameTime\<close> to the present time. The flush of the socket feed does neither.\<close>

lemma last_draw: "lastFrameTime (snd (drawToCanvas b w)) = lastFrameTime w"
  by (simp add: drawToCanvas_def Let_def split: option.split prod.split)

lemma pull_paint_respects_budget:
  assumes "drawOps (loaderImg_onload fid img w) \<noteq> drawOps w"
  shows "frameInterval w \<le> clock w - lastFrameTime w
     \<and> lastFrameTime (loaderImg_onload fid img w) = clock w"
proof (cases "clock w - lastFrameTime w < frameInterval w")
  case True
  then have "drawOps (loaderImg_onload fid img w) = drawOps w"
    by (simp add: onload_throttled)
  with assms show ?thesis by simp
next
  case False
  have "lastFrameTime (snd (drawToCanvas (Some img)
          (w\<lparr>isLoading := False, lastFrameTime := clock w\<rparr>))) = clock w"
    by (simp add: last_draw)
  then have "lastFrameTime (loaderImg_onload fid img w) = clock w"
    using False
    by (simp add: loaderImg_onload_def Let_def case_prod_unfold setTimeout_def status_upd
        split: option.split)
  with False show ?thesis by simp
qed

lemma push_accept_respects_budget:
  assumes "decoding (live2d_frame sid frame w) \<noteq> decoding w"
  shows "frameInterval w \<le> clock w - lastFrameTime w
     \<and> lastFrameTime (live2d_frame sid frame w) = clock w"
proof (cases "clock w - lastFrameTime w < frameInterval w")
  case True
  then have "decoding (live2d_frame sid frame w) = decoding w"
    by (simp add: live2d_frame_def Let_def)
  with assms show ?thesis by simp
next
  case False
  then have "lastFrameTime (live2d_frame sid frame w) = clock w"
    by (simp add: live2d_frame_def Let_def processWebSocketFrame_def setTimeout_def
        split: option.split)
  with False show ?thesis by simp
qed

lemma flush_keeps_lastFrameTime:
  "lastFrameTime (flushPending sid w) = lastFrameTime w"
  by (simp add: flushPending_def Let_def processWebSocketFrame_def split: option.split)

end
